theory Spec2Isabelle
  imports Main
begin

section \<open>JavaScript values\<close>

text \<open>
  A JavaScript string is a sequence of UTF-16 code units, so a string value is a list of
  numbers; \<open>js\<close> turns a literal of the source into one.  Numbers are the integers and
  \<open>NaN\<close>: fractions and infinities are IEEE doubles and lie outside this development.
  An object is the list of its own properties in insertion order; an array has its
  elements and, beside them, the named properties a program has set on it.
\<close>

type_synonym jsstring = "nat list"

definition js :: "string \<Rightarrow> jsstring" where
  "js s = map of_char s"

datatype jsnum = NaN | Fin int

datatype jsval =
    JUndefined
  | JNull
  | JBool bool
  | JNum jsnum
  | JStr jsstring
  | JArr "jsval list" "(jsstring \<times> jsval) list"
  | JObj "(jsstring \<times> jsval) list"

datatype js_error = Error (message: jsstring)

type_synonym 'a outcome = "js_error + 'a"

fun digits :: "nat \<Rightarrow> jsstring" where
  "digits n = (if n < 10 then [48 + n] else digits (n div 10) @ [48 + n mod 10])"

declare digits.simps [simp del]

definition int_toString :: "int \<Rightarrow> jsstring" where
  "int_toString i = (if i < 0 then 45 # digits (nat (- i)) else digits (nat i))"

definition num_toString :: "jsnum \<Rightarrow> jsstring" where
  "num_toString n = (case n of NaN \<Rightarrow> js ''NaN'' | Fin i \<Rightarrow> int_toString i)"

text \<open>\<open>ToBoolean\<close>: what \<open>if (v)\<close>, \<open>!v\<close> and \<open>v || w\<close> test.\<close>

fun truthy :: "jsval \<Rightarrow> bool" where
  "truthy JUndefined = False"
| "truthy JNull = False"
| "truthy (JBool b) = b"
| "truthy (JNum NaN) = False"
| "truthy (JNum (Fin i)) = (i \<noteq> 0)"
| "truthy (JStr s) = (s \<noteq> [])"
| "truthy (JArr xs ps) = True"
| "truthy (JObj kvs) = True"

definition js_or :: "jsval \<Rightarrow> jsval \<Rightarrow> jsval" where
  "js_or a b = (if truthy a then a else b)"

fun nullish :: "jsval \<Rightarrow> bool" where
  "nullish JUndefined = True"
| "nullish JNull = True"
| "nullish v = False"

text \<open>
  Reading property \<open>k\<close> of \<open>v\<close>: a \<open>TypeError\<close> on \<open>null\<close> and \<open>undefined\<close>, the own
  property of an object, and \<open>undefined\<close> where there is none.  The program reads only
  the keys \<open>chart c w width h height backgroundColor bkg encoding options plugins\<close>, none
  of which a primitive, an array or \<open>Object.prototype\<close> defines.
\<close>

text \<open>Storing under a key keeps the place of a key that is present and appends a new one.\<close>

definition upd :: "('k \<times> 'v) list \<Rightarrow> 'k \<Rightarrow> 'v \<Rightarrow> ('k \<times> 'v) list" where
  "upd kvs k v =
     (if k \<in> fst ` set kvs then map (\<lambda>(k', v'). if k' = k then (k', v) else (k', v')) kvs
      else kvs @ [(k, v)])"

definition own :: "(jsstring \<times> jsval) list \<Rightarrow> jsstring \<Rightarrow> jsval" where
  "own kvs k = (case map_of kvs k of None \<Rightarrow> JUndefined | Some v \<Rightarrow> v)"

fun get_prop :: "jsval \<Rightarrow> jsstring \<Rightarrow> jsval outcome" where
  "get_prop JUndefined k = Inl (Error (js ''Cannot read properties of undefined''))"
| "get_prop JNull k = Inl (Error (js ''Cannot read properties of null''))"
| "get_prop (JObj kvs) k = Inr (own kvs k)"
| "get_prop (JArr xs ps) k = Inr (own ps k)"
| "get_prop v k = Inr JUndefined"

text \<open>Optional chaining \<open>v?.k\<close>.\<close>

definition opt_prop :: "jsval \<Rightarrow> jsstring \<Rightarrow> jsval" where
  "opt_prop v k = (case get_prop v k of Inl e \<Rightarrow> JUndefined | Inr w \<Rightarrow> w)"

text \<open>
  \<open>ToString\<close> and \<open>ToNumber\<close>.  A numeric string denotes a number of this development
  when it is an optionally signed run of decimal digits between white space; every other
  string is read as \<open>NaN\<close>.
\<close>

definition is_space :: "nat \<Rightarrow> bool" where
  "is_space c = (c \<in> {9, 10, 11, 12, 13, 32, 160, 5760, 8232, 8233, 8239, 8287, 12288, 65279}
     \<or> (8192 \<le> c \<and> c \<le> 8202))"

definition is_digit :: "nat \<Rightarrow> bool" where
  "is_digit c = (48 \<le> c \<and> c \<le> 57)"

definition digits_value :: "jsstring \<Rightarrow> int" where
  "digits_value ds = foldl (\<lambda>acc c. 10 * acc + (int c - 48)) 0 ds"

fun join_comma :: "jsstring list \<Rightarrow> jsstring" where
  "join_comma [] = []"
| "join_comma [s] = s"
| "join_comma (s # t # ts) = s @ 44 # join_comma (t # ts)"

fun to_string :: "jsval \<Rightarrow> jsstring" where
  "to_string JUndefined = js ''undefined''"
| "to_string JNull = js ''null''"
| "to_string (JBool b) = (if b then js ''true'' else js ''false'')"
| "to_string (JNum n) = num_toString n"
| "to_string (JStr s) = s"
| "to_string (JArr xs ps) = join_comma (map (\<lambda>x. if nullish x then [] else to_string x) xs)"
| "to_string (JObj kvs) = js ''[object Object]''"

definition trim :: "jsstring \<Rightarrow> jsstring" where
  "trim s = rev (dropWhile is_space (rev (dropWhile is_space s)))"

definition string_to_number :: "jsstring \<Rightarrow> jsnum" where
  "string_to_number s =
     (let t = trim s;
          (neg, ds) = (case t of
                         c # r \<Rightarrow> if c = 45 then (True, r) else if c = 43 then (False, r) else (False, t)
                       | [] \<Rightarrow> (False, []))
      in if t = [] then Fin 0
         else if ds \<noteq> [] \<and> list_all is_digit ds
              then Fin (if neg then - digits_value ds else digits_value ds)
         else NaN)"

fun to_number :: "jsval \<Rightarrow> jsnum" where
  "to_number JUndefined = NaN"
| "to_number JNull = Fin 0"
| "to_number (JBool b) = Fin (if b then 1 else 0)"
| "to_number (JNum n) = n"
| "to_number v = string_to_number (to_string v)"

text \<open>\<open>parseInt(v, 10)\<close>: the longest signed decimal prefix of \<open>ToString(v)\<close> after white space.\<close>

definition parseInt :: "jsval \<Rightarrow> jsnum" where
  "parseInt v =
     (let t = dropWhile is_space (to_string v);
          (neg, r) = (case t of
                        c # r \<Rightarrow> if c = 45 then (True, r) else if c = 43 then (False, r) else (False, t)
                      | [] \<Rightarrow> (False, []));
          ds = takeWhile is_digit r
      in if ds = [] then NaN
         else Fin (if neg then - digits_value ds else digits_value ds))"

definition Math_max :: "jsnum \<Rightarrow> jsnum \<Rightarrow> jsnum" where
  "Math_max a b = (case (a, b) of (Fin x, Fin y) \<Rightarrow> Fin (max x y) | _ \<Rightarrow> NaN)"

section \<open>Responses\<close>

datatype resp_body = Text jsstring | Bytes "nat list" | Json jsval

record response =
  status :: nat
  headers :: "(jsstring \<times> jsstring) list"
  body :: resp_body

definition header_get :: "(jsstring \<times> jsstring) list \<Rightarrow> jsstring \<Rightarrow> jsstring option" where
  "header_get hs k = map_of hs k"

definition header_set :: "(jsstring \<times> jsstring) list \<Rightarrow> jsstring \<Rightarrow> jsstring \<Rightarrow> (jsstring \<times> jsstring) list" where
  "header_set hs k v = upd hs k v"

section \<open>The browser session (Durable Object)\<close>

text \<open>
  The rendering engine is outside the program.  A call to it is recorded in \<open>engine_log\<close>
  together with its arguments; what it answers comes from an \<open>engine_run\<close>, which holds for
  each call of one \<open>fetch\<close> either the value it returns or the error it raises.
  \<open>clock\<close> holds the readings of \<open>Date.now()\<close> of one \<open>fetch\<close>, in program order.
\<close>

datatype engine_call =
    Launch
  | NewPage nat
  | SetViewport nat jsnum jsnum
  | SetContent nat
  | WaitForFunction nat
  | SetRequestInterception nat
  | Evaluate nat jsval
  | Query nat
  | Screenshot nat
  | ClosePage nat
  | CloseBrowser nat

record engine_run =
  launch :: "nat outcome"
  newPage :: "nat outcome"
  setViewportInit :: "unit outcome"
  setContent :: "unit outcome"
  waitForChart :: "unit outcome"
  setRequestInterception :: "unit outcome"
  setViewport :: "unit outcome"
  evaluate :: "jsval outcome"
  waitForReady :: "unit outcome"
  query :: "bool outcome"
  screenshot :: "nat list outcome"

record clock =
  t_start :: int
  t_initStart :: int
  t_initEnd :: int
  t_used :: int
  t_updateStart :: int
  t_updateEnd :: int
  t_shotStart :: int
  t_shotEnd :: int
  t_total :: int

record BrowserSession =
  browser :: "nat option"
  page :: "nat option"
  lastUsed :: int
  requestCount :: int
  storage_alarm :: "int option"
  engine_log :: "engine_call list"

text \<open>The constructor; a new object's storage holds no alarm.\<close>

definition new_session :: "int \<Rightarrow> BrowserSession" where
  "new_session now =
     \<lparr> browser = None, page = None, lastUsed = now, requestCount = 0,
       storage_alarm = None, engine_log = [] \<rparr>"

text \<open>Statements that may raise and that change the object: a result and the new object.\<close>

type_synonym 'a act = "BrowserSession \<Rightarrow> 'a outcome \<times> BrowserSession"

definition ret :: "'a \<Rightarrow> 'a act" where
  "ret x s = (Inr x, s)"

definition raise :: "js_error \<Rightarrow> 'a act" where
  "raise e s = (Inl e, s)"

definition and_then :: "'a act \<Rightarrow> ('a \<Rightarrow> 'b act) \<Rightarrow> 'b act" where
  "and_then m f s = (case m s of (Inl e, s') \<Rightarrow> (Inl e, s') | (Inr x, s') \<Rightarrow> f x s')"

definition engine :: "engine_call \<Rightarrow> 'a outcome \<Rightarrow> 'a act" where
  "engine c r s = (r, s\<lparr>engine_log := engine_log s @ [c]\<rparr>)"

definition the_page :: "nat act" where
  "the_page s = (case page s of
                   None \<Rightarrow> (Inl (Error (js ''Cannot read properties of null'')), s)
                 | Some p \<Rightarrow> (Inr p, s))"

text \<open>
  \<open>initializeBrowser\<close>.  The handler it registers with \<open>page.on\<close> runs inside the engine
  and is no call of its own.
\<close>

definition initializeBrowser :: "engine_run \<Rightarrow> unit act" where
  "initializeBrowser e =
     and_then (engine Launch (launch e)) (\<lambda>b.
     and_then (\<lambda>s. (Inr (), s\<lparr>browser := Some b\<rparr>)) (\<lambda>_.
     and_then (engine (NewPage b) (newPage e)) (\<lambda>p.
     and_then (\<lambda>s. (Inr (), s\<lparr>page := Some p\<rparr>)) (\<lambda>_.
     and_then (engine (SetViewport p (Fin 800) (Fin 600)) (setViewportInit e)) (\<lambda>_.
     and_then (engine (SetContent p) (setContent e)) (\<lambda>_.
     and_then (engine (WaitForFunction p) (waitForChart e)) (\<lambda>_.
     engine (SetRequestInterception p) (setRequestInterception e))))))))"

definition chart_dimension :: "jsval \<Rightarrow> jsstring \<Rightarrow> int \<Rightarrow> jsval outcome" where
  "chart_dimension chartConfig k dflt =
     (case get_prop chartConfig (js ''options'') of
        Inl err \<Rightarrow> Inl err
      | Inr opts \<Rightarrow> Inr (js_or (opt_prop opts k) (JNum (Fin dflt))))"

definition updateChart :: "engine_run \<Rightarrow> jsval \<Rightarrow> unit act" where
  "updateChart e chartConfig =
     (case chart_dimension chartConfig (js ''width'') 500 of
        Inl err \<Rightarrow> raise err
      | Inr width \<Rightarrow>
     (case chart_dimension chartConfig (js ''height'') 300 of
        Inl err \<Rightarrow> raise err
      | Inr height \<Rightarrow>
     and_then the_page (\<lambda>p.
     and_then (engine (SetViewport p (Math_max (to_number width) (Fin 100))
                                     (Math_max (to_number height) (Fin 100)))
                      (setViewport e)) (\<lambda>_.
     and_then the_page (\<lambda>p.
     and_then (engine (Evaluate p chartConfig) (evaluate e)) (\<lambda>success.
     if \<not> truthy success then raise (Error (js ''Failed to update chart''))
     else
     and_then the_page (\<lambda>p.
     engine (WaitForFunction p) (waitForReady e))))))))"

definition takeScreenshot :: "engine_run \<Rightarrow> nat list act" where
  "takeScreenshot e =
     and_then the_page (\<lambda>p.
     and_then (engine (Query p) (query e)) (\<lambda>canvas.
     if \<not> canvas then raise (Error (js ''Cannot read properties of null''))
     else engine (Screenshot p) (screenshot e)))"

text \<open>\<open>close()\<close> is called on a live handle and its failure is swallowed.\<close>

definition cleanup :: "BrowserSession \<Rightarrow> BrowserSession" where
  "cleanup s =
     (let s1 = (case page s of
                  None \<Rightarrow> s
                | Some p \<Rightarrow> s\<lparr>engine_log := engine_log s @ [ClosePage p], page := None\<rparr>);
          s2 = (case browser s1 of
                  None \<Rightarrow> s1
                | Some b \<Rightarrow> s1\<lparr>engine_log := engine_log s1 @ [CloseBrowser b], browser := None\<rparr>)
      in s2\<lparr>requestCount := 0\<rparr>)"

definition render_response :: "clock \<Rightarrow> int \<Rightarrow> nat list \<Rightarrow> int \<Rightarrow> response" where
  "render_response t initialization shot count =
     \<lparr> status = 200,
       headers =
         [(js ''Content-Type'', js ''image/png''),
          (js ''X-Browser-Reused'', if count > 1 then js ''true'' else js ''false''),
          (js ''X-Request-Count'', int_toString count),
          (js ''X-Init-Time'', int_toString initialization),
          (js ''X-Update-Time'', int_toString (t_updateEnd t - t_updateStart t)),
          (js ''X-Screenshot-Time'', int_toString (t_shotEnd t - t_shotStart t)),
          (js ''X-Total-Time'', int_toString (t_total t - t_start t))],
       body = Bytes shot \<rparr>"

text \<open>The body of the \<open>try\<close> block of \<open>fetch\<close>.\<close>

definition fetch_try :: "engine_run \<Rightarrow> clock \<Rightarrow> jsval \<Rightarrow> response act" where
  "fetch_try e t chart =
     and_then (\<lambda>s. if browser s = None \<or> page s = None
                    then and_then (initializeBrowser e) (\<lambda>_. ret (t_initEnd t - t_initStart t)) s
                    else ret 0 s) (\<lambda>initialization.
     and_then (\<lambda>s. (Inr (), s\<lparr>requestCount := requestCount s + 1, lastUsed := t_used t\<rparr>)) (\<lambda>_.
     and_then (updateChart e chart) (\<lambda>_.
     and_then (takeScreenshot e) (\<lambda>shot.
     (\<lambda>s. (Inr (render_response t initialization shot (requestCount s)), s))))))"

text \<open>
  \<open>fetch\<close>: \<open>request_json\<close> is what \<open>await request.json()\<close> gives.  It and the
  destructuring of \<open>chart\<close> stand before the \<open>try\<close>; the \<open>catch\<close> runs \<open>cleanup\<close> and
  throws the error again.
\<close>

definition fetch :: "engine_run \<Rightarrow> clock \<Rightarrow> jsval outcome \<Rightarrow> response act" where
  "fetch e t request_json s =
     (case request_json of
        Inl err \<Rightarrow> (Inl err, s)
      | Inr b \<Rightarrow>
     (case get_prop b (js ''chart'') of
        Inl err \<Rightarrow> (Inl err, s)
      | Inr chart \<Rightarrow>
     (case fetch_try e t chart s of
        (Inr r, s') \<Rightarrow> (Inr r, s')
      | (Inl err, s') \<Rightarrow> (Inl err, cleanup s'))))"

text \<open>\<open>alarm\<close>, with the two readings of \<open>Date.now()\<close> it makes.\<close>

definition alarm :: "int \<Rightarrow> int \<Rightarrow> BrowserSession \<Rightarrow> BrowserSession" where
  "alarm now now' s =
     (if now - lastUsed s > 5 * 60 * 1000 then cleanup s
      else s\<lparr>storage_alarm := Some (now' + 60000)\<rparr>)"


section \<open>Base64 (\<open>atob\<close> and \<open>btoa\<close>)\<close>

text \<open>
  The two functions of the platform as the HTML standard defines them.  \<open>btoa\<close> refuses a
  string with a code unit above 255 and encodes the others as bytes.  \<open>atob\<close> removes
  ASCII white space, removes one or two closing \<open>=\<close> when the length is a multiple of
  four, refuses a length that is 1 modulo 4 and any character outside the alphabet, and
  decodes six bits a character, dropping the bits left over.  Its result is a string of
  code units below 256, one for each byte.
\<close>

definition b64_char :: "nat \<Rightarrow> nat" where
  "b64_char i =
     (if i < 26 then 65 + i
      else if i < 52 then 97 + (i - 26)
      else if i < 62 then 48 + (i - 52)
      else if i = 62 then 43 else 47)"

definition b64_index :: "nat \<Rightarrow> nat option" where
  "b64_index c =
     (if 65 \<le> c \<and> c \<le> 90 then Some (c - 65)
      else if 97 \<le> c \<and> c \<le> 122 then Some (c - 97 + 26)
      else if 48 \<le> c \<and> c \<le> 57 then Some (c - 48 + 52)
      else if c = 43 then Some 62
      else if c = 47 then Some 63
      else None)"

fun encode_triples :: "nat list \<Rightarrow> jsstring" where
  "encode_triples (x # y # z # r) =
     b64_char (x div 4) # b64_char ((x mod 4) * 16 + y div 16)
       # b64_char ((y mod 16) * 4 + z div 64) # b64_char (z mod 64) # encode_triples r"
| "encode_triples [x, y] =
     [b64_char (x div 4), b64_char ((x mod 4) * 16 + y div 16), b64_char ((y mod 16) * 4), 61]"
| "encode_triples [x] = [b64_char (x div 4), b64_char ((x mod 4) * 16), 61, 61]"
| "encode_triples [] = []"

fun decode_quads :: "nat list \<Rightarrow> nat list" where
  "decode_quads (a # b # c # d # r) =
     (a * 4 + b div 16) # ((b mod 16) * 16 + c div 4) # ((c mod 4) * 64 + d) # decode_quads r"
| "decode_quads [a, b, c] = [a * 4 + b div 16, (b mod 16) * 16 + c div 4]"
| "decode_quads [a, b] = [a * 4 + b div 16]"
| "decode_quads r = []"

definition InvalidCharacterError :: js_error where
  "InvalidCharacterError = Error (js ''Invalid character'')"

definition btoa :: "jsstring \<Rightarrow> jsstring outcome" where
  "btoa s = (if list_all (\<lambda>c. c \<le> 255) s then Inr (encode_triples s)
             else Inl InvalidCharacterError)"

definition is_ascii_space :: "nat \<Rightarrow> bool" where
  "is_ascii_space c = (c \<in> {9, 10, 12, 13, 32})"

definition strip_padding :: "jsstring \<Rightarrow> jsstring" where
  "strip_padding s =
     (if length s mod 4 = 0 then
        (case rev s of
           a # b # r \<Rightarrow> if a = 61 then (if b = 61 then rev r else rev (b # r)) else s
         | _ \<Rightarrow> s)
      else s)"

definition atob :: "jsstring \<Rightarrow> jsstring outcome" where
  "atob s =
     (let d = strip_padding (filter (\<lambda>c. \<not> is_ascii_space c) s)
      in if length d mod 4 = 1 then Inl InvalidCharacterError
         else if list_all (\<lambda>c. b64_index c \<noteq> None) d
              then Inr (decode_quads (map (\<lambda>c. the (b64_index c)) d))
         else Inl InvalidCharacterError)"

section \<open>The request normalizer\<close>

text \<open>
  A request as the worker reads it: the method (\<open>req_method\<close>), the path and the query
  parameters of its URL, and what \<open>request.json()\<close> gives.  \<open>param\<close> is
  \<open>url.searchParams.get\<close>.
\<close>

record request =
  req_method :: jsstring
  pathname :: jsstring
  searchParams :: "(jsstring \<times> jsstring) list"
  json :: "jsval outcome"

record chart_options =
  width :: jsval
  height :: jsval
  backgroundColor :: jsval
  encoding :: jsval

definition param :: "request \<Rightarrow> jsstring \<Rightarrow> jsval" where
  "param r k = (case map_of (searchParams r) k of None \<Rightarrow> JNull | Some v \<Rightarrow> JStr v)"

definition parseChartParameters :: "request \<Rightarrow> (jsval \<times> chart_options) outcome" where
  "parseChartParameters r =
     (if req_method r = js ''POST'' then
        (case json r of
           Inl err \<Rightarrow> Inl err
         | Inr b \<Rightarrow>
        (case get_prop b (js ''c'') of
           Inl err \<Rightarrow> Inl err
         | Inr c \<Rightarrow>
             Inr (js_or c (opt_prop b (js ''chart'')),
                  \<lparr> width = js_or (opt_prop b (js ''w'')) (opt_prop b (js ''width'')),
                    height = js_or (opt_prop b (js ''h'')) (opt_prop b (js ''height'')),
                    backgroundColor =
                      js_or (opt_prop b (js ''backgroundColor'')) (opt_prop b (js ''bkg'')),
                    encoding = js_or (opt_prop b (js ''encoding'')) (JStr (js ''url'')) \<rparr>)))
      else if req_method r = js ''GET'' then
        Inr (js_or (param r (js ''c'')) (param r (js ''chart'')),
             \<lparr> width = js_or (param r (js ''w'')) (param r (js ''width'')),
               height = js_or (param r (js ''h'')) (param r (js ''height'')),
               backgroundColor = js_or (param r (js ''backgroundColor'')) (param r (js ''bkg'')),
               encoding = js_or (param r (js ''encoding'')) (JStr (js ''url'')) \<rparr>)
      else
        Inr (JUndefined,
             \<lparr> width = JUndefined, height = JUndefined, backgroundColor = JUndefined,
               encoding = JUndefined \<rparr>))"

text \<open>
  \<open>decodeChartConfig\<close>.  \<open>JSON_parse\<close> is the platform's \<open>JSON.parse\<close>, a parameter of
  the functions that call it: for a text either the value it denotes or the error raised.
\<close>

definition decodeChartConfig ::
    "(jsstring \<Rightarrow> jsval outcome) \<Rightarrow> jsval \<Rightarrow> jsval \<Rightarrow> jsval outcome" where
  "decodeChartConfig JSON_parse chart enc =
     (if enc = JStr (js ''base64'') then
        (case atob (to_string chart) of
           Inl err \<Rightarrow> Inl err
         | Inr decoded \<Rightarrow> JSON_parse decoded)
      else
        (case chart of
           JStr s \<Rightarrow> JSON_parse s
         | _ \<Rightarrow> Inr chart))"

text \<open>
  Assignment \<open>v.k = w\<close> in a module, which is strict code: it changes or adds the property
  of an object or an array (\<open>upd\<close>) and raises a \<open>TypeError\<close> on every other value.
\<close>

fun set_prop :: "jsval \<Rightarrow> jsstring \<Rightarrow> jsval \<Rightarrow> jsval outcome" where
  "set_prop (JObj kvs) k v = Inr (JObj (upd kvs k v))"
| "set_prop (JArr xs ps) k v = Inr (JArr xs (upd ps k v))"
| "set_prop JUndefined k v = Inl (Error (js ''Cannot set properties of undefined''))"
| "set_prop JNull k v = Inl (Error (js ''Cannot set properties of null''))"
| "set_prop u k v = Inl (Error (js ''Cannot create property''))"

definition seq :: "'a outcome \<Rightarrow> ('a \<Rightarrow> 'b outcome) \<Rightarrow> 'b outcome" where
  "seq m f = (case m of Inl err \<Rightarrow> Inl err | Inr x \<Rightarrow> f x)"

text \<open>\<open>chartConfig.options.k = v\<close>.\<close>

definition set_option :: "jsval \<Rightarrow> jsstring \<Rightarrow> jsval \<Rightarrow> jsval outcome" where
  "set_option chartConfig k v =
     seq (get_prop chartConfig (js ''options'')) (\<lambda>opts.
     seq (set_prop opts k v) (\<lambda>opts'.
     set_prop chartConfig (js ''options'') opts'))"

definition applyChartOptions :: "jsval \<Rightarrow> chart_options \<Rightarrow> jsval outcome" where
  "applyChartOptions chartConfig options =
     seq (get_prop chartConfig (js ''options'')) (\<lambda>opts.
     seq (if \<not> truthy opts then set_prop chartConfig (js ''options'') (JObj [])
          else Inr chartConfig) (\<lambda>c1.
     seq (if truthy (width options)
          then set_option c1 (js ''width'') (JNum (parseInt (width options)))
          else Inr c1) (\<lambda>c2.
     seq (if truthy (height options)
          then set_option c2 (js ''height'') (JNum (parseInt (height options)))
          else Inr c2) (\<lambda>c3.
     if truthy (backgroundColor options) then
       seq (get_prop c3 (js ''options'')) (\<lambda>opts3.
       seq (set_option c3 (js ''plugins'') (js_or (opt_prop opts3 (js ''plugins'')) (JObj []))) (\<lambda>c4.
       seq (get_prop c4 (js ''options'')) (\<lambda>opts4.
       seq (get_prop opts4 (js ''plugins'')) (\<lambda>plugins.
       seq (set_prop plugins (js ''backgroundColor'') (backgroundColor options)) (\<lambda>plugins'.
       set_option c4 (js ''plugins'') plugins')))))
     else Inr c3))))"

section \<open>The worker\<close>

text \<open>
  What \<open>JSON.parse(JSON.stringify(v))\<close> makes of a value: the body the worker sends to the
  session is serialized and parsed again.  \<open>NaN\<close> and an \<open>undefined\<close> element become
  \<open>null\<close>, a property whose value is \<open>undefined\<close> and the named properties of an array
  are left out.
\<close>

fun json_clone :: "jsval \<Rightarrow> jsval" where
  "json_clone (JNum NaN) = JNull"
| "json_clone JUndefined = JNull"
| "json_clone (JArr xs ps) = JArr (map json_clone xs) []"
| "json_clone (JObj kvs) =
     JObj (map (\<lambda>(k, v). (k, json_clone v)) (filter (\<lambda>(k, v). v \<noteq> JUndefined) kvs))"
| "json_clone v = v"

text \<open>
  One request to the worker: \<open>requestId\<close> is what \<open>crypto.randomUUID()\<close> returns,
  \<open>g_start\<close> and \<open>g_end\<close> are the two readings of \<open>Date.now()\<close>, \<open>g_engine\<close> and \<open>g_clock\<close>
  are those of the call to the session.  \<open>DEBUG\<close> is \<open>env.DEBUG\<close>.  The state of the
  worker is the flag \<open>globalThis.__warmedUp\<close>, the number of warmup tasks handed to
  \<open>ctx.waitUntil\<close> and the session named \<open>main-session\<close>.
\<close>

record gateway_run =
  requestId :: jsstring
  g_start :: int
  g_end :: int
  g_engine :: engine_run
  g_clock :: clock

record worker =
  warmedUp :: bool
  warmups :: nat
  session :: BrowserSession

definition health_response :: "jsstring \<Rightarrow> response" where
  "health_response rid =
     \<lparr> status = 200,
       headers = [(js ''Content-Type'', js ''text/plain''), (js ''X-Request-ID'', rid)],
       body = Text (js ''QuickChart Worker (Optimized with Browser Reuse)'') \<rparr>"

definition missing_chart_response :: response where
  "missing_chart_response =
     \<lparr> status = 400,
       headers = [(js ''Content-Type'', js ''application/json'')],
       body = Json (JObj [(js ''error'',
                JStr (js ''Missing chart configuration (use c or chart parameter)''))]) \<rparr>"

definition invalid_chart_response :: "js_error \<Rightarrow> response" where
  "invalid_chart_response err =
     \<lparr> status = 400,
       headers = [(js ''Content-Type'', js ''application/json'')],
       body = Json (JObj [(js ''error'', JStr (js ''Invalid chart configuration'')),
                          (js ''details'', JStr (message err))]) \<rparr>"

definition not_found_response :: "jsstring \<Rightarrow> response" where
  "not_found_response rid =
     \<lparr> status = 404, headers = [(js ''X-Request-ID'', rid)], body = Text (js ''Not Found'') \<rparr>"

definition internal_error_response :: "jsstring \<Rightarrow> js_error \<Rightarrow> response" where
  "internal_error_response rid err =
     \<lparr> status = 500,
       headers = [(js ''Content-Type'', js ''application/json'')],
       body = Json (JObj [(js ''error'', JStr (message err)), (js ''requestId'', JStr rid)]) \<rparr>"

definition header_or_0 :: "(jsstring \<times> jsstring) list \<Rightarrow> jsstring \<Rightarrow> jsstring" where
  "header_or_0 hs k = (case header_get hs k of None \<Rightarrow> js ''0'' | Some v \<Rightarrow> if v = [] then js ''0'' else v)"

definition server_timing :: "(jsstring \<times> jsstring) list \<Rightarrow> jsstring \<Rightarrow> jsstring" where
  "server_timing hs totalTime =
     js ''browser;dur='' @ header_or_0 hs (js ''X-Init-Time'') @ js '';desc=\"Browser Init\"'' @ js '', ''
     @ js ''update;dur='' @ header_or_0 hs (js ''X-Update-Time'') @ js '';desc=\"Chart Update\"'' @ js '', ''
     @ js ''screenshot;dur='' @ header_or_0 hs (js ''X-Screenshot-Time'') @ js '';desc=\"Screenshot\"'' @ js '', ''
     @ js ''render;dur='' @ header_or_0 hs (js ''X-Total-Time'') @ js '';desc=\"Total Render\"'' @ js '', ''
     @ js ''worker;dur='' @ totalTime @ js '';desc=\"Worker Total\"''"

definition relay_response :: "jsval \<Rightarrow> gateway_run \<Rightarrow> response \<Rightarrow> response" where
  "relay_response DEBUG g r =
     (let totalTime = int_toString (g_end g - g_start g);
          h1 = header_set (headers r) (js ''X-Worker-Time'') totalTime;
          h2 = header_set h1 (js ''X-Request-ID'') (requestId g);
          h3 = (if DEBUG = JStr (js ''1'') \<or> DEBUG = JNum (Fin 1)
                then header_set h2 (js ''Server-Timing'') (server_timing h2 totalTime)
                else h2)
      in \<lparr> status = status r, headers = h3, body = body r \<rparr>)"

text \<open>
  The \<open>try\<close> block of the worker's \<open>fetch\<close>.  An error the session raises reaches the
  worker at \<open>stub.fetch\<close> with its message.
\<close>

definition route ::
    "(jsstring \<Rightarrow> jsval outcome) \<Rightarrow> jsval \<Rightarrow> gateway_run \<Rightarrow> request \<Rightarrow> response act" where
  "route JSON_parse DEBUG g r s =
     (if pathname r = js ''/'' \<or> pathname r = js ''/health'' then
        (Inr (health_response (requestId g)), s)
      else if pathname r = js ''/chart'' then
        (case parseChartParameters r of
           Inl err \<Rightarrow> (Inl err, s)
         | Inr (chart, options) \<Rightarrow>
             if \<not> truthy chart then (Inr missing_chart_response, s)
             else
               (case seq (decodeChartConfig JSON_parse chart (encoding options))
                         (\<lambda>c. applyChartOptions c options) of
                  Inl err \<Rightarrow> (Inr (invalid_chart_response err), s)
                | Inr chartConfig \<Rightarrow>
                    (case fetch (g_engine g) (g_clock g)
                            (Inr (JObj [(js ''chart'', json_clone chartConfig)])) s of
                       (Inl err, s') \<Rightarrow> (Inl err, s')
                     | (Inr resp, s') \<Rightarrow> (Inr (relay_response DEBUG g resp), s'))))
      else (Inr (not_found_response (requestId g)), s))"

definition worker_fetch ::
    "(jsstring \<Rightarrow> jsval outcome) \<Rightarrow> jsval \<Rightarrow> gateway_run \<Rightarrow> request \<Rightarrow> worker
       \<Rightarrow> response \<times> worker" where
  "worker_fetch JSON_parse DEBUG g r w =
     (let w1 = (if \<not> warmedUp w then w\<lparr>warmedUp := True, warmups := warmups w + 1\<rparr> else w)
      in case route JSON_parse DEBUG g r (session w1) of
           (Inr resp, s') \<Rightarrow> (resp, w1\<lparr>session := s'\<rparr>)
         | (Inl err, s') \<Rightarrow> (internal_error_response (requestId g) err, w1\<lparr>session := s'\<rparr>))"

text \<open>\<open>warmupBrowserSession\<close>: one render of a small chart, its failure swallowed.\<close>

definition warmupChart :: jsval where
  "warmupChart =
     JObj [(js ''type'', JStr (js ''bar'')),
           (js ''data'', JObj [(js ''labels'', JArr [JStr (js ''Warmup'')] []),
                               (js ''datasets'', JArr [JObj [(js ''data'', JArr [JNum (Fin 1)] [])]] [])]),
           (js ''options'', JObj [(js ''width'', JNum (Fin 100)), (js ''height'', JNum (Fin 100))])]"

definition warmupBrowserSession :: "engine_run \<Rightarrow> clock \<Rightarrow> BrowserSession \<Rightarrow> BrowserSession" where
  "warmupBrowserSession e t s = snd (fetch e t (Inr (JObj [(js ''chart'', warmupChart)])) s)"


section \<open>Runs of the session and sample inputs\<close>

fun run_fetches :: "(engine_run \<times> clock \<times> jsval outcome) list \<Rightarrow> BrowserSession
    \<Rightarrow> response outcome list \<times> BrowserSession" where
  "run_fetches [] s = ([], s)"
| "run_fetches ((e, t, rq) # cs) s =
     (case fetch e t rq s of (r, s') \<Rightarrow>
        (case run_fetches cs s' of (rs, s'') \<Rightarrow> (r # rs, s'')))"

definition reused_header :: "response \<Rightarrow> jsstring option" where
  "reused_header r = header_get (headers r) (js ''X-Browser-Reused'')"

definition count_header :: "response \<Rightarrow> jsstring option" where
  "count_header r = header_get (headers r) (js ''X-Request-Count'')"

definition sim :: "BrowserSession \<Rightarrow> BrowserSession \<Rightarrow> bool" where
  "sim s u = (browser s = browser u \<and> page s = page u \<and> requestCount s = requestCount u)"

definition agree :: "'a act \<Rightarrow> bool" where
  "agree m = (\<forall>s u. sim s u \<longrightarrow> fst (m s) = fst (m u) \<and> sim (snd (m s)) (snd (m u)))"

definition ok_run :: engine_run where
  "ok_run = \<lparr> launch = Inr 10, newPage = Inr 11, setViewportInit = Inr (), setContent = Inr (),
      waitForChart = Inr (), setRequestInterception = Inr (), setViewport = Inr (),
      evaluate = Inr (JBool True), waitForReady = Inr (), query = Inr True,
      screenshot = Inr [137, 80, 78, 71] \<rparr>"

definition timeout_run :: engine_run where
  "timeout_run = ok_run \<lparr> waitForReady := Inl (Error (js ''Waiting failed: 5000ms exceeded'')) \<rparr>"

definition clock0 :: clock where
  "clock0 = \<lparr> t_start = 0, t_initStart = 0, t_initEnd = 0, t_used = 0, t_updateStart = 0,
      t_updateEnd = 0, t_shotStart = 0, t_shotEnd = 0, t_total = 0 \<rparr>"

definition bar_chart :: jsval where
  "bar_chart = JObj [(js ''type'', JStr (js ''bar'')),
                     (js ''data'', JObj [(js ''labels'', JArr [JStr (js ''A'')] []),
                                         (js ''datasets'', JArr [JObj [(js ''data'', JArr [JNum (Fin 1)] [])]] [])])]"

definition chart_request :: jsval where
  "chart_request = JObj [(js ''chart'', bar_chart)]"

definition no_parse :: "jsstring \<Rightarrow> jsval outcome" where
  "no_parse text = Inl (Error (js ''Unexpected token''))"

definition sample_run :: gateway_run where
  "sample_run = \<lparr> requestId = js ''7f3c'', g_start = 0, g_end = 0, g_engine = ok_run, g_clock = clock0 \<rparr>"

definition new_worker :: worker where
  "new_worker = \<lparr> warmedUp = False, warmups = 0, session = new_session 0 \<rparr>"

definition post_chart :: request where
  "post_chart = \<lparr> req_method = js ''POST'', pathname = js ''/chart'', searchParams = [],
                  json = Inr chart_request \<rparr>"

definition rid_header :: "response \<Rightarrow> jsstring option" where
  "rid_header r = header_get (headers r) (js ''X-Request-ID'')"

definition update_fail_run :: engine_run where
  "update_fail_run = ok_run \<lparr> evaluate := Inr (JBool False) \<rparr>"

definition bare_request :: "string \<Rightarrow> string \<Rightarrow> request" where
  "bare_request m p =
     \<lparr> req_method = js m, pathname = js p, searchParams = [],
       json = Inl (Error (js ''Unexpected end of JSON input'')) \<rparr>"

text \<open>The parts of a chart configuration that \<open>applyChartOptions\<close> reaches.\<close>

definition options_of :: "jsval \<Rightarrow> jsval" where
  "options_of c = opt_prop c (js ''options'')"

definition plugins_of :: "jsval \<Rightarrow> jsval" where
  "plugins_of c = opt_prop (options_of c) (js ''plugins'')"

definition elements :: "jsval \<Rightarrow> jsval list" where
  "elements v = (case v of JArr xs ps \<Rightarrow> xs | _ \<Rightarrow> [])"

definition is_container :: "jsval \<Rightarrow> bool" where
  "is_container v = (case v of JArr xs ps \<Rightarrow> True | JObj kvs \<Rightarrow> True | _ \<Rightarrow> False)"

definition titled_chart :: jsval where
  "titled_chart =
     JObj [(js ''type'', JStr (js ''bar'')),
           (js ''data'', JObj [(js ''labels'', JArr [JStr (js ''A'')] [])]),
           (js ''options'', JObj [(js ''title'', JStr (js ''Votes'')),
                                  (js ''plugins'', JObj [(js ''legend'', JBool False)])])]"

definition sized_options :: chart_options where
  "sized_options = \<lparr> width = JStr (js ''640''), height = JUndefined,
                      backgroundColor = JStr (js ''white''), encoding = JStr (js ''url'') \<rparr>"






text \<open>
  A stand-in for \<open>JSON.parse\<close> in examples: it knows the text \<open>{"type":"bar"}\<close> and
  rejects every other.
\<close>

definition sample_parse :: "jsstring \<Rightarrow> jsval outcome" where
  "sample_parse text =
     (if text = js ''{\"type\":\"bar\"}'' then Inr (JObj [(js ''type'', JStr (js ''bar''))])
      else Inl (Error (js ''Unexpected token'')))"


text \<open>The six-bit groups of a byte string, which \<open>btoa\<close> writes and \<open>atob\<close> reads.\<close>

fun sextets :: "nat list \<Rightarrow> nat list" where
  "sextets (x # y # z # r) =
     x div 4 # ((x mod 4) * 16 + y div 16) # ((y mod 16) * 4 + z div 64) # z mod 64 # sextets r"
| "sextets [x, y] = [x div 4, (x mod 4) * 16 + y div 16, (y mod 16) * 4]"
| "sextets [x] = [x div 4, (x mod 4) * 16]"
| "sextets [] = []"

fun padding :: "nat list \<Rightarrow> nat" where
  "padding (x # y # z # r) = padding r"
| "padding [x, y] = 1"
| "padding [x] = 2"
| "padding [] = 0"

text \<open>
  The UTF-8 bytes of a string, which a client that is not a browser encodes in base64: one
  to three bytes for a code unit, four for a surrogate pair, and those of U+FFFD for a
  lone surrogate.
\<close>

fun utf8_encode :: "jsstring \<Rightarrow> nat list" where
  "utf8_encode [] = []"
| "utf8_encode (c # r) =
     (if c < 128 then c # utf8_encode r
      else if c < 2048 then (192 + c div 64) # (128 + c mod 64) # utf8_encode r
      else if 55296 \<le> c \<and> c < 56320 then
        (case r of
           d # r' \<Rightarrow>
             if 56320 \<le> d \<and> d < 57344 then
               (let cp = 65536 + (c - 55296) * 1024 + (d - 56320)
                in (240 + cp div 262144) # (128 + cp div 4096 mod 64) # (128 + cp div 64 mod 64)
                     # (128 + cp mod 64) # utf8_encode r')
             else 239 # 191 # 189 # utf8_encode r
         | [] \<Rightarrow> [239, 191, 189])
      else if 56320 \<le> c \<and> c < 57344 then 239 # 191 # 189 # utf8_encode r
      else (224 + c div 4096) # (128 + c div 64 mod 64) # (128 + c mod 64) # utf8_encode r)"

text \<open>
  A chart whose type is the one character U+2192, its JSON text, and what \<open>JSON.parse\<close>
  makes of that text and of the text of its UTF-8 bytes read as code units.
\<close>

definition arrow_spec :: jsval where
  "arrow_spec = JObj [(js ''type'', JStr [8594])]"

definition arrow_text :: jsstring where
  "arrow_text = js ''{\"type\":\"'' @ [8594] @ js ''\"}''"

definition arrow_bytes_spec :: jsval where
  "arrow_bytes_spec = JObj [(js ''type'', JStr [226, 134, 146])]"

definition arrow_parse :: "jsstring \<Rightarrow> jsval outcome" where
  "arrow_parse text =
     (if text = arrow_text then Inr arrow_spec
      else if text = js ''{\"type\":\"'' @ [226, 134, 146] @ js ''\"}'' then Inr arrow_bytes_spec
      else Inl (Error (js ''Unexpected token'')))"

section \<open>The session under interleaved requests\<close>

text \<open>
  \<open>fetch\<close> is an \<open>async\<close> function: it runs until an \<open>await\<close>, where it is suspended with
  the engine call it has just issued, and goes on when that call settles.  A call in
  flight is recorded with the \<open>await\<close> it is suspended at and its local variables; \<open>resume\<close>
  runs it from there to its next \<open>await\<close> or to its end, reading and writing the fields of
  the object as they are at that moment.  An engine call is logged when it is issued.
\<close>

datatype await_point =
    A_json
  | A_launch | A_newPage | A_setViewportInit | A_setContent | A_waitForChart
  | A_setRequestInterception
  | A_setViewport | A_evaluate | A_waitForReady
  | A_query | A_screenshot
  | A_closePage | A_closeBrowser

record call =
  at :: await_point
  c_engine :: engine_run
  c_clock :: clock
  c_json :: "jsval outcome"
  c_chart :: jsval
  c_init :: int
  c_page :: nat
  c_error :: js_error

datatype call_state = Waiting call | Done "response outcome"

definition new_call :: "engine_run \<Rightarrow> clock \<Rightarrow> jsval outcome \<Rightarrow> call" where
  "new_call e t rq =
     \<lparr> at = A_json, c_engine = e, c_clock = t, c_json = rq, c_chart = JUndefined, c_init = 0,
       c_page = 0, c_error = Error [] \<rparr>"

definition issue :: "engine_call \<Rightarrow> BrowserSession \<Rightarrow> BrowserSession" where
  "issue ec s = s\<lparr>engine_log := engine_log s @ [ec]\<rparr>"

text \<open>\<open>cleanup\<close>, entered from the \<open>catch\<close> with the error caught, in its three parts.\<close>

definition after_page_closed :: "js_error \<Rightarrow> call \<Rightarrow> BrowserSession \<Rightarrow> call_state \<times> BrowserSession" where
  "after_page_closed err c s =
     (case browser s of
        Some b \<Rightarrow> (Waiting (c\<lparr>at := A_closeBrowser, c_error := err\<rparr>), issue (CloseBrowser b) s)
      | None \<Rightarrow> (Done (Inl err), s\<lparr>requestCount := 0\<rparr>))"

definition enter_catch :: "js_error \<Rightarrow> call \<Rightarrow> BrowserSession \<Rightarrow> call_state \<times> BrowserSession" where
  "enter_catch err c s =
     (case page s of
        Some p \<Rightarrow> (Waiting (c\<lparr>at := A_closePage, c_error := err\<rparr>), issue (ClosePage p) s)
      | None \<Rightarrow> after_page_closed err c s)"

text \<open>A call on \<open>this.page\<close>, which raises inside the \<open>try\<close> when the field is \<open>null\<close>.\<close>

definition with_page ::
    "call \<Rightarrow> BrowserSession \<Rightarrow> (nat \<Rightarrow> call_state \<times> BrowserSession) \<Rightarrow> call_state \<times> BrowserSession" where
  "with_page c s k =
     (case page s of
        None \<Rightarrow> enter_catch (Error (js ''Cannot read properties of null'')) c s
      | Some p \<Rightarrow> k p)"

text \<open>From \<open>this.requestCount++\<close> to the first \<open>await\<close> of \<open>updateChart\<close>.\<close>

definition start_update :: "int \<Rightarrow> call \<Rightarrow> BrowserSession \<Rightarrow> call_state \<times> BrowserSession" where
  "start_update initialization c s =
     (let c1 = c\<lparr>c_init := initialization\<rparr>;
          s1 = s\<lparr>requestCount := requestCount s + 1, lastUsed := t_used (c_clock c)\<rparr>
      in case chart_dimension (c_chart c) (js ''width'') 500 of
           Inl err \<Rightarrow> enter_catch err c1 s1
         | Inr w \<Rightarrow>
        (case chart_dimension (c_chart c) (js ''height'') 300 of
           Inl err \<Rightarrow> enter_catch err c1 s1
         | Inr h \<Rightarrow>
             with_page c1 s1 (\<lambda>p.
               (Waiting (c1\<lparr>at := A_setViewport\<rparr>),
                issue (SetViewport p (Math_max (to_number w) (Fin 100))
                                     (Math_max (to_number h) (Fin 100))) s1))))"

definition settle ::
    "'a outcome \<Rightarrow> call \<Rightarrow> BrowserSession \<Rightarrow> ('a \<Rightarrow> call_state \<times> BrowserSession)
       \<Rightarrow> call_state \<times> BrowserSession" where
  "settle r c s k = (case r of Inl err \<Rightarrow> enter_catch err c s | Inr x \<Rightarrow> k x)"

definition resume :: "call \<Rightarrow> BrowserSession \<Rightarrow> call_state \<times> BrowserSession" where
  "resume c s =
     (let e = c_engine c in
      case at c of
        A_json \<Rightarrow>
          (case c_json c of
             Inl err \<Rightarrow> (Done (Inl err), s)
           | Inr b \<Rightarrow>
          (case get_prop b (js ''chart'') of
             Inl err \<Rightarrow> (Done (Inl err), s)
           | Inr chart \<Rightarrow>
               if browser s = None \<or> page s = None
               then (Waiting (c\<lparr>c_chart := chart, at := A_launch\<rparr>), issue Launch s)
               else start_update 0 (c\<lparr>c_chart := chart\<rparr>) s))
      | A_launch \<Rightarrow>
          settle (launch e) c s (\<lambda>b.
            (Waiting (c\<lparr>at := A_newPage\<rparr>), issue (NewPage b) (s\<lparr>browser := Some b\<rparr>)))
      | A_newPage \<Rightarrow>
          settle (newPage e) c s (\<lambda>p.
            (Waiting (c\<lparr>at := A_setViewportInit\<rparr>),
             issue (SetViewport p (Fin 800) (Fin 600)) (s\<lparr>page := Some p\<rparr>)))
      | A_setViewportInit \<Rightarrow>
          settle (setViewportInit e) c s (\<lambda>_.
            with_page c s (\<lambda>p. (Waiting (c\<lparr>at := A_setContent\<rparr>), issue (SetContent p) s)))
      | A_setContent \<Rightarrow>
          settle (setContent e) c s (\<lambda>_.
            with_page c s (\<lambda>p. (Waiting (c\<lparr>at := A_waitForChart\<rparr>), issue (WaitForFunction p) s)))
      | A_waitForChart \<Rightarrow>
          settle (waitForChart e) c s (\<lambda>_.
            with_page c s (\<lambda>p.
              (Waiting (c\<lparr>at := A_setRequestInterception\<rparr>), issue (SetRequestInterception p) s)))
      | A_setRequestInterception \<Rightarrow>
          settle (setRequestInterception e) c s (\<lambda>_.
            with_page c s (\<lambda>p.
              start_update (t_initEnd (c_clock c) - t_initStart (c_clock c)) c s))
      | A_setViewport \<Rightarrow>
          settle (setViewport e) c s (\<lambda>_.
            with_page c s (\<lambda>p.
              (Waiting (c\<lparr>at := A_evaluate\<rparr>), issue (Evaluate p (c_chart c)) s)))
      | A_evaluate \<Rightarrow>
          settle (evaluate e) c s (\<lambda>success.
            if \<not> truthy success then enter_catch (Error (js ''Failed to update chart'')) c s
            else with_page c s (\<lambda>p.
                   (Waiting (c\<lparr>at := A_waitForReady\<rparr>), issue (WaitForFunction p) s)))
      | A_waitForReady \<Rightarrow>
          settle (waitForReady e) c s (\<lambda>_.
            with_page c s (\<lambda>p.
              (Waiting (c\<lparr>at := A_query, c_page := p\<rparr>), issue (Query p) s)))
      | A_query \<Rightarrow>
          settle (query e) c s (\<lambda>canvas.
            if \<not> canvas then enter_catch (Error (js ''Cannot read properties of null'')) c s
            else (Waiting (c\<lparr>at := A_screenshot\<rparr>), issue (Screenshot (c_page c)) s))
      | A_screenshot \<Rightarrow>
          settle (screenshot e) c s (\<lambda>shot.
            (Done (Inr (render_response (c_clock c) (c_init c) shot (requestCount s))), s))
      | A_closePage \<Rightarrow> after_page_closed (c_error c) c (s\<lparr>page := None\<rparr>)
      | A_closeBrowser \<Rightarrow> (Done (Inl (c_error c)), s\<lparr>browser := None, requestCount := 0\<rparr>))"

text \<open>
  The object with the calls it has been sent, in the order they were started.  A
  schedule starts calls and resumes them; the platform decides it.
\<close>

record actor =
  object :: BrowserSession
  slots :: "call_state list"

datatype sched_event = Start engine_run clock "jsval outcome" | Resume nat

fun step :: "sched_event \<Rightarrow> actor \<Rightarrow> actor" where
  "step (Start e t rq) a = a\<lparr>slots := slots a @ [Waiting (new_call e t rq)]\<rparr>"
| "step (Resume i) a =
     (if i < length (slots a) then
        (case slots a ! i of
           Waiting c \<Rightarrow>
             (case resume c (object a) of
                (cs, s') \<Rightarrow> a\<lparr>object := s', slots := (slots a)[i := cs]\<rparr>)
         | Done r \<Rightarrow> a)
      else a)"

definition run_schedule :: "sched_event list \<Rightarrow> actor \<Rightarrow> actor" where
  "run_schedule evs a = foldl (\<lambda>a ev. step ev a) a evs"

fun in_flight :: "call_state \<Rightarrow> bool" where
  "in_flight (Waiting c) = True"
| "in_flight (Done r) = False"

text \<open>A call uses the engine from the first engine call it issues until it ends.\<close>

fun using_engine :: "call_state \<Rightarrow> bool" where
  "using_engine (Waiting c) = (at c \<noteq> A_json)"
| "using_engine (Done r) = False"

definition overlap :: "actor \<Rightarrow> bool" where
  "overlap a = (2 \<le> length (filter using_engine (slots a)))"

text \<open>A schedule is serial when it starts a call only while no call is in flight.\<close>

fun serial :: "sched_event list \<Rightarrow> actor \<Rightarrow> bool" where
  "serial [] a = True"
| "serial (Start e t rq # evs) a =
     (filter in_flight (slots a) = [] \<and> serial evs (step (Start e t rq) a))"
| "serial (Resume i # evs) a = serial evs (step (Resume i) a)"

text \<open>One call resumed until it ends, at most \<open>n\<close> times.\<close>

fun resume_all :: "nat \<Rightarrow> call_state \<times> BrowserSession \<Rightarrow> call_state \<times> BrowserSession" where
  "resume_all 0 x = x"
| "resume_all (Suc n) (Waiting c, s) = resume_all n (resume c s)"
| "resume_all (Suc n) (Done r, s) = (Done r, s)"

definition new_actor :: actor where
  "new_actor = \<lparr> object = new_session 0, slots = [] \<rparr>"

text \<open>The \<open>catch\<close> of \<open>fetch\<close> around a statement, run without interruption.\<close>

definition catching :: "response act \<Rightarrow> BrowserSession \<Rightarrow> call_state \<times> BrowserSession" where
  "catching m s =
     (case m s of
        (Inr r, s') \<Rightarrow> (Done (Inr r), s')
      | (Inl err, s') \<Rightarrow> (Done (Inl err), cleanup s'))"

text \<open>The end of the \<open>try\<close> block and what follows the initialization, as statements.\<close>

definition finish :: "call \<Rightarrow> nat list \<Rightarrow> response act" where
  "finish c shot s = (Inr (render_response (c_clock c) (c_init c) shot (requestCount s)), s)"

definition rest :: "int \<Rightarrow> call \<Rightarrow> response act" where
  "rest initialization c =
     and_then (\<lambda>s. (Inr (), s\<lparr>requestCount := requestCount s + 1, lastUsed := t_used (c_clock c)\<rparr>)) (\<lambda>_.
     and_then (updateChart (c_engine c) (c_chart c)) (\<lambda>_.
     and_then (takeScreenshot (c_engine c)) (finish (c\<lparr>c_init := initialization\<rparr>))))"

text \<open>Sample calls and schedules.\<close>

definition line_chart :: jsval where
  "line_chart = JObj [(js ''type'', JStr (js ''line''))]"

definition bar_call :: sched_event where
  "bar_call = Start ok_run clock0 (Inr chart_request)"

definition line_call :: sched_event where
  "line_call = Start ok_run clock0 (Inr (JObj [(js ''chart'', line_chart)]))"

definition both_launch :: "sched_event list" where
  "both_launch = [bar_call, line_call, Resume 0, Resume 1]"

definition line_overtakes :: "sched_event list" where
  "line_overtakes =
     [bar_call, Resume 0, Resume 0, Resume 0, Resume 0, Resume 0, Resume 0, Resume 0, Resume 0,
      Resume 0, line_call, Resume 1, Resume 1, Resume 0, Resume 0, Resume 0]"

definition one_then_other :: "sched_event list" where
  "one_then_other = bar_call # replicate 14 (Resume 0) @ [line_call, Resume 1]"

text \<open>
  Calls delivered one after another: each is started and resumed to its end before the
  next is started.  \<open>n\<close> is the slot of the first.
\<close>

fun one_by_one :: "(engine_run \<times> clock \<times> jsval outcome) list \<Rightarrow> nat \<Rightarrow> sched_event list" where
  "one_by_one [] n = []"
| "one_by_one ((e, t, rq) # cs) n =
     Start e t rq # replicate 14 (Resume n) @ one_by_one cs (Suc n)"

fun succeeded :: "call_state \<Rightarrow> bool" where
  "succeeded (Done (Inr r)) = True"
| "succeeded x = False"

text \<open>
  An engine that hands out the handles 20 and 21, and schedules on which calls overlap.
  In \<open>failure_beside\<close> a call whose render times out runs beside a call that has stored its
  own handles.  In \<open>failure_then_next\<close> a call fails and ends its cleanup while an earlier
  call is still initializing, and a third call follows.  In \<open>together\<close> two calls are
  started together and resumed in turn.
\<close>

definition other_run :: engine_run where
  "other_run = ok_run \<lparr> launch := Inr 20, newPage := Inr 21 \<rparr>"

definition failure_beside :: "sched_event list" where
  "failure_beside =
     [Start timeout_run clock0 (Inr chart_request),
      Start other_run clock0 (Inr (JObj [(js ''chart'', line_chart)])),
      Resume 0, Resume 1, Resume 0, Resume 1, Resume 0, Resume 1,
      Resume 0, Resume 0, Resume 0, Resume 0, Resume 0, Resume 0, Resume 0, Resume 0, Resume 0]"

definition failure_then_next :: "sched_event list" where
  "failure_then_next =
     [Start ok_run clock0 (Inr (JObj [(js ''chart'', line_chart)])), Resume 0, Resume 0, Resume 0,
      Start update_fail_run clock0 (Inr (JObj [(js ''chart'', line_chart)])),
      Resume 1, Resume 1, Resume 1, Resume 1, Resume 1,
      Start other_run clock0 (Inr (JObj [(js ''chart'', line_chart)])), Resume 2, Resume 2, Resume 2,
      Resume 0, Resume 0, Resume 0, Resume 0,
      Resume 2, Resume 2, Resume 2, Resume 2, Resume 2, Resume 2, Resume 2, Resume 2, Resume 2]"

definition together :: "sched_event list" where
  "together =
     [Start ok_run clock0 (Inr (JObj [(js ''chart'', line_chart)])),
      Start other_run clock0 (Inr (JObj [(js ''chart'', line_chart)])),
      Resume 0, Resume 1, Resume 0, Resume 1, Resume 0, Resume 1, Resume 0, Resume 1,
      Resume 0, Resume 1, Resume 0, Resume 1, Resume 0, Resume 1, Resume 0, Resume 1,
      Resume 0, Resume 1, Resume 0, Resume 1, Resume 0, Resume 1, Resume 0, Resume 1]"

section \<open>Basic facts\<close>

lemma js_eq [simp]: "js a = js b \<longleftrightarrow> a = b"
  unfolding js_def by (simp add: inj_map_eq_map inj_on_def)

lemma js_Nil [simp]: "js s = [] \<longleftrightarrow> s = []" "[] = js s \<longleftrightarrow> s = []"
  by (auto simp: js_def)

lemmas act_defs = and_then_def engine_def the_page_def ret_def raise_def

lemma cleanup_fields:
  "browser (cleanup s) = None" "page (cleanup s) = None" "requestCount (cleanup s) = 0"
  "storage_alarm (cleanup s) = storage_alarm s" "lastUsed (cleanup s) = lastUsed s"
  by (simp_all add: cleanup_def Let_def split: option.splits)

lemma initializeBrowser_frame:
  assumes "initializeBrowser e s = (r, s')"
  shows "requestCount s' = requestCount s \<and> lastUsed s' = lastUsed s \<and> storage_alarm s' = storage_alarm s
     \<and> (r = Inr () \<longrightarrow> browser s' \<noteq> None \<and> page s' \<noteq> None)"
  using assms unfolding initializeBrowser_def act_defs
  by (auto split: sum.splits)

lemma updateChart_frame:
  assumes "updateChart e c s = (r, s')"
  shows "requestCount s' = requestCount s \<and> lastUsed s' = lastUsed s \<and> storage_alarm s' = storage_alarm s
     \<and> browser s' = browser s \<and> page s' = page s"
  using assms unfolding updateChart_def act_defs
  by (auto split: sum.splits option.splits if_splits)

lemma takeScreenshot_frame:
  assumes "takeScreenshot e s = (r, s')"
  shows "requestCount s' = requestCount s \<and> lastUsed s' = lastUsed s \<and> storage_alarm s' = storage_alarm s
     \<and> browser s' = browser s \<and> page s' = page s"
  using assms unfolding takeScreenshot_def act_defs
  by (auto split: sum.splits option.splits if_splits)

lemma render_response_headers:
  "reused_header (render_response t i sh c) = Some (if c > 1 then js ''true'' else js ''false'')"
  "count_header (render_response t i sh c) = Some (int_toString c)"
  by (simp_all add: reused_header_def count_header_def render_response_def header_get_def)

lemma fetch_try_alarm:
  assumes "fetch_try e t c s = (r, s')"
  shows "storage_alarm s' = storage_alarm s"
proof -
  show ?thesis
    using assms unfolding fetch_try_def and_then_def ret_def
    by (auto split: sum.splits prod.splits if_splits
        dest!: initializeBrowser_frame updateChart_frame takeScreenshot_frame)
qed

lemma fetch_try_success:
  assumes "fetch_try e t c s = (Inr r, s')"
  shows "requestCount s' = requestCount s + 1 \<and> browser s' \<noteq> None \<and> page s' \<noteq> None
     \<and> reused_header r = Some (if requestCount s + 1 > 1 then js ''true'' else js ''false'')
     \<and> count_header r = Some (int_toString (requestCount s + 1))"
  using assms unfolding fetch_try_def and_then_def ret_def
  by (auto simp: render_response_headers split: sum.splits prod.splits if_splits
      dest!: initializeBrowser_frame updateChart_frame takeScreenshot_frame)

lemma agree_and_then:
  assumes "agree m" "\<And>x. agree (f x)"
  shows "agree (and_then m f)"
  unfolding agree_def
proof (intro allI impI)
  fix s u assume su: "sim s u"
  obtain r s1 where ms: "m s = (r, s1)" by (cases "m s")
  obtain r' u1 where mu: "m u = (r', u1)" by (cases "m u")
  from assms(1) su ms mu have rr: "r' = r" and s1: "sim s1 u1"
    unfolding agree_def by fastforce+
  show "fst (and_then m f s) = fst (and_then m f u) \<and> sim (snd (and_then m f s)) (snd (and_then m f u))"
  proof (cases r)
    case (Inl e)
    then show ?thesis using ms mu rr s1 by (simp add: and_then_def)
  next
    case (Inr x)
    from assms(2)[of x] s1 have "fst (f x s1) = fst (f x u1) \<and> sim (snd (f x s1)) (snd (f x u1))"
      unfolding agree_def by blast
    then show ?thesis using ms mu rr Inr by (simp add: and_then_def)
  qed
qed

lemma agree_engine: "agree (engine c r)"
  by (simp add: agree_def engine_def sim_def)

lemma agree_ret: "agree (ret x)"
  by (simp add: agree_def ret_def)

lemma agree_raise: "agree (raise x)"
  by (simp add: agree_def raise_def)

lemma agree_the_page: "agree the_page"
  by (auto simp: agree_def the_page_def sim_def split: option.splits)

lemma agree_initializeBrowser: "agree (initializeBrowser e)"
  unfolding initializeBrowser_def
  by (intro agree_and_then agree_engine) (simp_all add: agree_def sim_def)

lemma agree_updateChart: "agree (updateChart e c)"
  unfolding updateChart_def
  by (simp split: sum.splits add: agree_and_then agree_engine agree_raise agree_the_page)

lemma agree_takeScreenshot: "agree (takeScreenshot e)"
  unfolding takeScreenshot_def
  by (simp add: agree_and_then agree_engine agree_raise agree_the_page)

lemma agree_fetch_try: "agree (fetch_try e t c)"
  unfolding fetch_try_def
  apply (intro agree_and_then agree_updateChart agree_takeScreenshot)
     apply (simp_all add: agree_def sim_def)
  apply (intro allI impI)
  subgoal for s u
    using agree_and_then [OF agree_initializeBrowser [of e], of "\<lambda>_. ret (t_initEnd t - t_initStart t)"]
    by (simp add: agree_def sim_def agree_ret ret_def)
  done

lemma fetch_view:
  assumes "sim s u"
  shows "fst (fetch e t rq s) = fst (fetch e t rq u)"
proof -
  have v: "fst (fetch_try e t c s) = fst (fetch_try e t c u)" for c
    using agree_fetch_try assms unfolding agree_def by blast
  have w: "fst (case fetch_try e t c x of (Inl err, s') \<Rightarrow> (Inl err, cleanup s') | (Inr r, s') \<Rightarrow> (Inr r, s'))
      = fst (fetch_try e t c x)" for c x
    by (simp split: prod.splits sum.splits)
  show ?thesis
    unfolding fetch_def
    by (simp add: v w split: sum.splits)
qed

lemma fetch_alarm: "storage_alarm (snd (fetch e t rq s)) = storage_alarm s"
  unfolding fetch_def
  by (auto split: sum.splits prod.splits simp: cleanup_fields dest: fetch_try_alarm)

lemma fetch_success:
  assumes "fetch e t rq s = (Inr r, s')"
  shows "requestCount s' = requestCount s + 1
     \<and> reused_header r = Some (if requestCount s + 1 > 1 then js ''true'' else js ''false'')
     \<and> count_header r = Some (int_toString (requestCount s + 1))"
  using assms unfolding fetch_def
  by (auto split: sum.splits prod.splits dest!: fetch_try_success)

lemma int_toString_1: "int_toString 1 = js ''1''"
  by (simp add: int_toString_def digits.simps js_def)

lemma run_fetches_Cons:
  "run_fetches ((e, t, rq) # cs) s =
     (fst (fetch e t rq s) # fst (run_fetches cs (snd (fetch e t rq s))),
      snd (run_fetches cs (snd (fetch e t rq s))))"
  by (simp split: prod.splits)

lemma run_fetches_counts:
  assumes "\<forall>r \<in> set (fst (run_fetches cs s)). \<not> isl r" "i < length cs"
  shows "\<exists>resp. fst (run_fetches cs s) ! i = Inr resp
      \<and> count_header resp = Some (int_toString (requestCount s + int i + 1))
      \<and> reused_header resp = Some (if requestCount s + int i + 1 > 1 then js ''true'' else js ''false'')"
  using assms
proof (induction cs arbitrary: s i)
  case Nil
  then show ?case by simp
next
  case (Cons c cs)
  obtain e t rq where c: "c = (e, t, rq)" by (cases c)
  obtain r s' where f: "fetch e t rq s = (r, s')" by (cases "fetch e t rq s")
  obtain rs s'' where rf: "run_fetches cs s' = (rs, s'')" by (cases "run_fetches cs s'")
  from Cons.prems(1) c f rf have ok: "\<not> isl r" and oks: "\<forall>r \<in> set (fst (run_fetches cs s')). \<not> isl r"
    by simp_all
  from ok obtain resp where r: "r = Inr resp" by (cases r) simp_all
  note fs = fetch_success [OF f [unfolded r]]
  show ?case
  proof (cases i)
    case 0
    then show ?thesis using c f rf r fs by simp
  next
    case (Suc j)
    with Cons.prems(2) have "j < length cs" by simp
    from Cons.IH [OF oks this] obtain resp' where
      "fst (run_fetches cs s') ! j = Inr resp'"
      "count_header resp' = Some (int_toString (requestCount s' + int j + 1))"
      "reused_header resp' = Some (if requestCount s' + int j + 1 > 1 then js ''true'' else js ''false'')"
      by blast
    then show ?thesis using c f rf Suc fs by (simp add: add.assoc)
  qed
qed

lemma run_fetches_alarm: "storage_alarm (snd (run_fetches cs s)) = storage_alarm s"
proof (induction cs arbitrary: s)
  case Nil
  then show ?case by simp
next
  case (Cons c cs)
  obtain e t rq where c: "c = (e, t, rq)" by (cases c)
  obtain r s' where f: "fetch e t rq s = (r, s')" by (cases "fetch e t rq s")
  have "storage_alarm s' = storage_alarm s" using fetch_alarm [of e t rq s] f by simp
  then show ?case using Cons.IH [of s'] c f by (simp add: run_fetches_Cons del: run_fetches.simps)
qed

section \<open>Sample runs of \<open>fetch\<close>\<close>

lemma ok_fetch_new:
  "fetch ok_run clock0 (Inr chart_request) (new_session 0) =
     (Inr (render_response clock0 0 [137, 80, 78, 71] 1),
      \<lparr> browser = Some 10, page = Some 11, lastUsed = 0, requestCount = 1, storage_alarm = None,
        engine_log = [Launch, NewPage 10, SetViewport 11 (Fin 800) (Fin 600), SetContent 11,
          WaitForFunction 11, SetRequestInterception 11, SetViewport 11 (Fin 500) (Fin 300),
          Evaluate 11 bar_chart, WaitForFunction 11, Query 11, Screenshot 11] \<rparr>)"
  by (simp add: fetch_def fetch_try_def initializeBrowser_def updateChart_def takeScreenshot_def
      act_defs chart_dimension_def opt_prop_def own_def js_or_def Math_max_def
      ok_run_def clock0_def chart_request_def bar_chart_def new_session_def)

section \<open>Failure inside a render\<close>

lemma cleanup_closes:
  "page s = Some p \<Longrightarrow> ClosePage p \<in> set (engine_log (cleanup s))"
  "browser s = Some h \<Longrightarrow> CloseBrowser h \<in> set (engine_log (cleanup s))"
  by (simp_all add: cleanup_def Let_def split: option.splits)

lemma timeout_fetch_try:
  "fetch_try timeout_run clock0 bar_chart (new_session 0) =
     (Inl (Error (js ''Waiting failed: 5000ms exceeded'')),
      \<lparr> browser = Some 10, page = Some 11, lastUsed = 0, requestCount = 1, storage_alarm = None,
        engine_log = [Launch, NewPage 10, SetViewport 11 (Fin 800) (Fin 600), SetContent 11,
          WaitForFunction 11, SetRequestInterception 11, SetViewport 11 (Fin 500) (Fin 300),
          Evaluate 11 bar_chart, WaitForFunction 11] \<rparr>)"
  by (simp add: fetch_try_def initializeBrowser_def updateChart_def takeScreenshot_def
      act_defs chart_dimension_def opt_prop_def own_def js_or_def Math_max_def
      ok_run_def timeout_run_def clock0_def bar_chart_def new_session_def)

section \<open>The idle check\<close>

text \<open>
  C4.  \<open>alarm\<close> is the only place that calls \<open>setAlarm\<close>: no \<open>fetch\<close> changes the alarm
  of the storage, so after any run of \<open>fetch\<close> calls on a new session, with the browser
  initialized or not, no idle check is scheduled.
\<close>

theorem idle_check_never_scheduled:
  "storage_alarm (snd (run_fetches cs (new_session now))) = None
   \<and> storage_alarm (snd (fetch e t rq s)) = storage_alarm s"
  by (simp add: run_fetches_alarm fetch_alarm new_session_def)

section \<open>The worker: routes, identifiers and errors\<close>

lemma map_of_replace:
  "map_of (map (\<lambda>(k', v'). if k' = k then (k', v) else (k', v')) kvs) x
     = (if x = k \<and> k \<in> fst ` set kvs then Some v else map_of kvs x)"
proof (induction kvs)
  case Nil
  then show ?case by simp
next
  case (Cons p kvs)
  then show ?case by (cases p) (auto, force+)
qed

lemma map_of_upd: "map_of (upd kvs k v) = (map_of kvs)(k \<mapsto> v)"
proof (cases "k \<in> fst ` set kvs")
  case True
  then show ?thesis by (auto simp: upd_def fun_eq_iff map_of_replace)
next
  case False
  then have "map_of kvs k = None" by (simp add: map_of_eq_None_iff)
  then show ?thesis using False by (auto simp: upd_def fun_eq_iff map_add_def split: option.splits)
qed

lemma header_get_set:
  "header_get (header_set hs k v) k' = (if k' = k then Some v else header_get hs k')"
  by (simp add: header_get_def header_set_def map_of_upd)

lemma fetch_try_status:
  assumes "fetch_try e t c s = (Inr r, s')"
  shows "status r = 200"
  using assms unfolding fetch_try_def and_then_def ret_def
  by (auto simp: render_response_def split: sum.splits prod.splits if_splits)

lemma fetch_status:
  assumes "fetch e t rq s = (Inr r, s')"
  shows "status r = 200"
  using assms unfolding fetch_def
  by (auto split: sum.splits prod.splits dest!: fetch_try_status)

lemma relay_response_id:
  "status (relay_response D g r) = status r"
  "header_get (headers (relay_response D g r)) (js ''X-Request-ID'') = Some (requestId g)"
  by (simp_all add: relay_response_def Let_def header_get_set)

lemma route_cases:
  assumes "route P D g r s = (res, s')"
  shows "res = Inr (health_response (requestId g))
       \<or> res = Inr (not_found_response (requestId g))
       \<or> res = Inr missing_chart_response
       \<or> (\<exists>err. res = Inr (invalid_chart_response err))
       \<or> (\<exists>resp. res = Inr (relay_response D g resp) \<and> status resp = 200)
       \<or> (\<exists>err. res = Inl err)"
  using assms unfolding route_def
  by (auto split: if_splits sum.splits prod.splits dest: fetch_status)

lemma rid_header_simps:
  "rid_header (health_response rid) = Some rid"
  "rid_header (not_found_response rid) = Some rid"
  "rid_header (relay_response D g r) = Some (requestId g)"
  "rid_header (internal_error_response rid err) = None"
  "rid_header missing_chart_response = None"
  "rid_header (invalid_chart_response err) = None"
  by (simp_all add: rid_header_def relay_response_id)
     (simp_all add: health_response_def not_found_response_def missing_chart_response_def
        invalid_chart_response_def internal_error_response_def header_get_def)

lemma status_simps:
  "status (health_response rid) = 200"
  "status (not_found_response rid) = 404"
  "status (internal_error_response rid err) = 500"
  "status missing_chart_response = 400"
  "status (invalid_chart_response err) = 400"
  by (simp_all add: health_response_def not_found_response_def missing_chart_response_def
        invalid_chart_response_def internal_error_response_def)

text \<open>
  C7.  A response with status 200 or 404 carries the request identifier in the header
  \<open>X-Request-ID\<close>; the 500 response carries it in the field \<open>requestId\<close> of its body and
  has no such header; every response has one of the statuses 200, 404, 400 and 500.
\<close>

theorem request_id_on_responses:
  "(status (fst (worker_fetch P D g r w)) \<in> {200, 404}
      \<and> rid_header (fst (worker_fetch P D g r w)) = Some (requestId g))
   \<or> status (fst (worker_fetch P D g r w)) = 400
   \<or> (status (fst (worker_fetch P D g r w)) = 500
      \<and> rid_header (fst (worker_fetch P D g r w)) = None
      \<and> (\<exists>err. body (fst (worker_fetch P D g r w))
            = Json (JObj [(js ''error'', JStr (message err)), (js ''requestId'', JStr (requestId g))])))"
proof -
  define w1 where "w1 = (if \<not> warmedUp w then w\<lparr>warmedUp := True, warmups := warmups w + 1\<rparr> else w)"
  obtain res s' where rt: "route P D g r (session w1) = (res, s')"
    by (cases "route P D g r (session w1)")
  have wf: "fst (worker_fetch P D g r w)
      = (case res of Inr resp \<Rightarrow> resp | Inl err \<Rightarrow> internal_error_response (requestId g) err)"
    using rt unfolding worker_fetch_def w1_def [symmetric] Let_def
    by (simp split: sum.splits)
  have b: "body (internal_error_response (requestId g) err)
      = Json (JObj [(js ''error'', JStr (message err)), (js ''requestId'', JStr (requestId g))])" for err
    by (simp add: internal_error_response_def)
  from route_cases [OF rt] show ?thesis
    unfolding wf
    by (auto simp: rid_header_simps status_simps relay_response_id b)
qed

lemmas eval_defs =
  worker_fetch_def route_def parseChartParameters_def decodeChartConfig_def applyChartOptions_def
  set_option_def seq_def upd_def own_def opt_prop_def js_or_def param_def
  fetch_def fetch_try_def initializeBrowser_def updateChart_def takeScreenshot_def cleanup_def
  chart_dimension_def Math_max_def act_defs relay_response_def header_set_def
  internal_error_response_def missing_chart_response_def health_response_def
  not_found_response_def invalid_chart_response_def render_response_def
  ok_run_def timeout_run_def clock0_def chart_request_def bar_chart_def new_session_def
  sample_run_def new_worker_def post_chart_def no_parse_def Let_def

lemmas eval_defs2 = eval_defs update_fail_run_def bare_request_def

text \<open>
  C6.  When the session raises \<open>err\<close> for a chart request, the worker answers 500 with a
  JSON body of two fields: \<open>error\<close>, which is the message of \<open>err\<close> itself, and
  \<open>requestId\<close>.
\<close>

theorem engine_failure_response:
  assumes "pathname r = js ''/chart''"
      and "parseChartParameters r = Inr (chart, options)"
      and "truthy chart"
      and "seq (decodeChartConfig P chart (encoding options)) (\<lambda>c. applyChartOptions c options)
             = Inr chartConfig"
      and "fetch (g_engine g) (g_clock g) (Inr (JObj [(js ''chart'', json_clone chartConfig)]))
             (session w) = (Inl err, s')"
  shows "fst (worker_fetch P D g r w)
           = \<lparr> status = 500, headers = [(js ''Content-Type'', js ''application/json'')],
               body = Json (JObj [(js ''error'', JStr (message err)),
                                  (js ''requestId'', JStr (requestId g))]) \<rparr>
         \<and> session (snd (worker_fetch P D g r w)) = s'"
  using assms
  by (simp add: worker_fetch_def route_def internal_error_response_def Let_def)

theorem engine_failure_response_witness:
  "fst (worker_fetch no_parse JUndefined (sample_run\<lparr>g_engine := timeout_run\<rparr>) post_chart new_worker)
     = \<lparr> status = 500, headers = [(js ''Content-Type'', js ''application/json'')],
         body = Json (JObj [(js ''error'', JStr (js ''Waiting failed: 5000ms exceeded'')),
                            (js ''requestId'', JStr (js ''7f3c''))]) \<rparr>"
proof -
  let ?cfg = "JObj [(js ''type'', JStr (js ''bar'')),
                     (js ''data'', JObj [(js ''labels'', JArr [JStr (js ''A'')] []),
                                         (js ''datasets'', JArr [JObj [(js ''data'', JArr [JNum (Fin 1)] [])]] [])]),
                     (js ''options'', JObj [])]"
  let ?opts = "\<lparr> width = JUndefined, height = JUndefined, backgroundColor = JUndefined,
                 encoding = JStr (js ''url'') \<rparr>"
  let ?g = "sample_run\<lparr>g_engine := timeout_run\<rparr>"
  have 1: "pathname post_chart = js ''/chart''" by (simp add: post_chart_def)
  have 2: "parseChartParameters post_chart = Inr (bar_chart, ?opts)"
    by (simp add: eval_defs2)
  have 3: "truthy bar_chart" by (simp add: bar_chart_def)
  have 4: "seq (decodeChartConfig no_parse bar_chart (encoding ?opts)) (\<lambda>c. applyChartOptions c ?opts)
      = Inr ?cfg"
    by (simp add: eval_defs2)
  have 5: "fst (fetch (g_engine ?g) (g_clock ?g) (Inr (JObj [(js ''chart'', json_clone ?cfg)]))
             (session new_worker)) = Inl (Error (js ''Waiting failed: 5000ms exceeded''))"
    by (simp add: eval_defs2)
  obtain s' where 6: "fetch (g_engine ?g) (g_clock ?g) (Inr (JObj [(js ''chart'', json_clone ?cfg)]))
             (session new_worker) = (Inl (Error (js ''Waiting failed: 5000ms exceeded'')), s')"
    using 5 by (metis prod.collapse)
  from engine_failure_response [OF 1 2 3 4 6, of JUndefined]
  show ?thesis by (simp add: sample_run_def)
qed

text \<open>
  C6, against a generic message: a render that times out and a chart update that fails give
  two different \<open>error\<close> fields, each the message of the failure.
\<close>

theorem generic_error_body_counterexample:
  "body (fst (worker_fetch no_parse JUndefined (sample_run\<lparr>g_engine := timeout_run\<rparr>) post_chart new_worker))
     = Json (JObj [(js ''error'', JStr (js ''Waiting failed: 5000ms exceeded'')),
                   (js ''requestId'', JStr (js ''7f3c''))])
   \<and> body (fst (worker_fetch no_parse JUndefined (sample_run\<lparr>g_engine := update_fail_run\<rparr>) post_chart new_worker))
     = Json (JObj [(js ''error'', JStr (js ''Failed to update chart'')),
                   (js ''requestId'', JStr (js ''7f3c''))])"
  by (simp add: eval_defs2)

text \<open>
  C7, against the header on every response: the 400 for a missing chart and the 500 carry no
  \<open>X-Request-ID\<close> header.
\<close>

theorem request_id_header_counterexample:
  "status (fst (worker_fetch no_parse JUndefined sample_run (bare_request ''GET'' ''/chart'') new_worker)) = 400
   \<and> rid_header (fst (worker_fetch no_parse JUndefined sample_run (bare_request ''GET'' ''/chart'') new_worker)) = None
   \<and> status (fst (worker_fetch no_parse JUndefined (sample_run\<lparr>g_engine := timeout_run\<rparr>) post_chart new_worker)) = 500
   \<and> rid_header (fst (worker_fetch no_parse JUndefined (sample_run\<lparr>g_engine := timeout_run\<rparr>) post_chart new_worker)) = None"
  by (simp add: eval_defs2 rid_header_def header_get_def)

text \<open>
  C8.  The worker routes by path alone.  A path other than \<open>/\<close>, \<open>/health\<close> and \<open>/chart\<close>
  gets the 404 response; \<open>/\<close> and \<open>/health\<close> get the liveness response under every
  method; \<open>/chart\<close> under a method other than \<open>GET\<close> and \<open>POST\<close> gets the 400 response
  for a missing chart.
\<close>

theorem routes_by_path:
  "(pathname r \<noteq> js ''/'' \<and> pathname r \<noteq> js ''/health'' \<and> pathname r \<noteq> js ''/chart''
      \<longrightarrow> fst (worker_fetch P D g r w) = not_found_response (requestId g))
   \<and> (pathname r = js ''/'' \<or> pathname r = js ''/health''
      \<longrightarrow> fst (worker_fetch P D g r w) = health_response (requestId g))
   \<and> (pathname r = js ''/chart'' \<and> req_method r \<noteq> js ''GET'' \<and> req_method r \<noteq> js ''POST''
      \<longrightarrow> fst (worker_fetch P D g r w) = missing_chart_response)"
  by (simp add: worker_fetch_def route_def parseChartParameters_def Let_def)

theorem routes_by_path_witness:
  "fst (worker_fetch no_parse JUndefined sample_run (bare_request ''GET'' ''/favicon.ico'') new_worker)
     = not_found_response (js ''7f3c'')
   \<and> fst (worker_fetch no_parse JUndefined sample_run (bare_request ''DELETE'' ''/health'') new_worker)
     = health_response (js ''7f3c'')
   \<and> fst (worker_fetch no_parse JUndefined sample_run (bare_request ''PUT'' ''/chart'') new_worker)
     = missing_chart_response"
  using routes_by_path [of "bare_request ''GET'' ''/favicon.ico''" no_parse JUndefined sample_run new_worker]
        routes_by_path [of "bare_request ''DELETE'' ''/health''" no_parse JUndefined sample_run new_worker]
        routes_by_path [of "bare_request ''PUT'' ''/chart''" no_parse JUndefined sample_run new_worker]
  by (simp add: bare_request_def sample_run_def)

text \<open>
  C8, against routing by method: \<open>DELETE /health\<close> is answered 200 and \<open>PUT /chart\<close> 400,
  neither 404.
\<close>

theorem method_routing_counterexample:
  "status (fst (worker_fetch no_parse JUndefined sample_run (bare_request ''DELETE'' ''/health'') new_worker)) = 200
   \<and> status (fst (worker_fetch no_parse JUndefined sample_run (bare_request ''PUT'' ''/chart'') new_worker)) = 400"
  by (simp add: eval_defs2)

section \<open>Merging the options into the chart\<close>

lemma seq_Inr: "seq m f = Inr y \<longleftrightarrow> (\<exists>x. m = Inr x \<and> f x = Inr y)"
  by (cases m) (simp_all add: seq_def)

lemma falsy_no_props: "\<not> truthy v \<Longrightarrow> opt_prop v k = JUndefined"
  by (cases v rule: truthy.cases) (simp_all add: opt_prop_def)

lemma falsy_no_elements: "\<not> truthy v \<Longrightarrow> elements v = []"
  by (cases v) (simp_all add: elements_def)

lemma empty_object [simp]: "opt_prop (JObj []) k = JUndefined" "elements (JObj []) = []"
  by (simp_all add: opt_prop_def own_def elements_def)

lemma get_prop_opt: "get_prop v k = Inr x \<Longrightarrow> opt_prop v k = x"
  by (simp add: opt_prop_def)

lemma set_prop_view:
  assumes "set_prop v k x = Inr v'"
  shows "opt_prop v' k' = (if k' = k then x else opt_prop v k')" "elements v' = elements v"
    "is_container v'"
proof -
  from assms have "(\<exists>kvs. v = JObj kvs \<and> v' = JObj (upd kvs k x))
      \<or> (\<exists>xs ps. v = JArr xs ps \<and> v' = JArr xs (upd ps k x))"
    by (cases v) auto
  then show "opt_prop v' k' = (if k' = k then x else opt_prop v k')" "elements v' = elements v"
    "is_container v'"
    by (auto simp: opt_prop_def own_def map_of_upd elements_def is_container_def)
qed

lemma set_prop_container: "is_container v \<Longrightarrow> \<exists>v'. set_prop v k x = Inr v'"
  by (cases v) (simp_all add: is_container_def)

lemma get_prop_container: "is_container v \<Longrightarrow> get_prop v k = Inr (opt_prop v k)"
  by (cases v) (simp_all add: is_container_def opt_prop_def)

lemma set_option_view:
  assumes "set_option c k x = Inr c'"
  shows "opt_prop c' k' = (if k' = js ''options'' then options_of c' else opt_prop c k')"
    "elements c' = elements c"
    "opt_prop (options_of c') k'' = (if k'' = k then x else opt_prop (options_of c) k'')"
    "elements (options_of c') = elements (options_of c)"
    "is_container c'" "is_container (options_of c')"
proof -
  from assms obtain opts opts' where
    g: "get_prop c (js ''options'') = Inr opts" and
    s: "set_prop opts k x = Inr opts'" and
    w: "set_prop c (js ''options'') opts' = Inr c'"
    unfolding set_option_def seq_Inr by blast
  have o: "options_of c = opts" using g by (simp add: options_of_def get_prop_opt)
  have o': "options_of c' = opts'" using set_prop_view(1) [OF w, of "js ''options''"]
    by (simp add: options_of_def)
  show "opt_prop c' k' = (if k' = js ''options'' then options_of c' else opt_prop c k')"
    using set_prop_view(1) [OF w, of k'] o' by simp
  show "elements c' = elements c" using set_prop_view(2) [OF w] .
  show "opt_prop (options_of c') k'' = (if k'' = k then x else opt_prop (options_of c) k'')"
    using set_prop_view(1) [OF s, of k''] o o' by simp
  show "elements (options_of c') = elements (options_of c)"
    using set_prop_view(2) [OF s] o o' by simp
  show "is_container c'" using set_prop_view(3) [OF w] .
  show "is_container (options_of c')" using set_prop_view(3) [OF s] o' by simp
qed

lemma set_option_container:
  assumes "is_container c" "is_container (options_of c)"
  shows "\<exists>c'. set_option c k x = Inr c'"
proof -
  have g: "get_prop c (js ''options'') = Inr (options_of c)"
    using assms(1) by (simp add: get_prop_container options_of_def)
  obtain o' where s: "set_prop (options_of c) k x = Inr o'"
    using set_prop_container [OF assms(2)] by blast
  obtain c' where w: "set_prop c (js ''options'') o' = Inr c'"
    using set_prop_container [OF assms(1)] by blast
  show ?thesis using g s w by (simp add: set_option_def seq_def)
qed

lemma ensure_options_view:
  assumes "(if \<not> truthy (options_of c) then set_prop c (js ''options'') (JObj []) else Inr c) = Inr c1"
  shows "k \<noteq> js ''options'' \<Longrightarrow> opt_prop c1 k = opt_prop c k"
    "elements c1 = elements c"
    "opt_prop (options_of c1) k' = opt_prop (options_of c) k'"
    "elements (options_of c1) = elements (options_of c)"
    "truthy (options_of c1)"
proof -
  show "k \<noteq> js ''options'' \<Longrightarrow> opt_prop c1 k = opt_prop c k"
    using assms set_prop_view(1) [of c "js ''options''" "JObj []" c1 k]
    by (simp split: if_splits)
  show "elements c1 = elements c"
    using assms set_prop_view(2) [of c "js ''options''" "JObj []" c1]
    by (simp split: if_splits)
  have o: "options_of c1 = (if truthy (options_of c) then options_of c else JObj [])"
    using assms set_prop_view(1) [of c "js ''options''" "JObj []" c1 "js ''options''"]
    by (auto simp: options_of_def split: if_splits)
  show "opt_prop (options_of c1) k' = opt_prop (options_of c) k'"
    using o by (simp add: falsy_no_props)
  show "elements (options_of c1) = elements (options_of c)"
    using o by (simp add: falsy_no_elements)
  show "truthy (options_of c1)" using o by simp
qed

lemma cond_set_option_view:
  assumes "(if b then set_option c k x else Inr c) = Inr c'"
  shows "k' \<noteq> js ''options'' \<Longrightarrow> opt_prop c' k' = opt_prop c k'"
    "elements c' = elements c"
    "opt_prop (options_of c') k'' = (if b \<and> k'' = k then x else opt_prop (options_of c) k'')"
    "elements (options_of c') = elements (options_of c)"
proof -
  show "k' \<noteq> js ''options'' \<Longrightarrow> opt_prop c' k' = opt_prop c k'"
    using assms set_option_view(1) [of c k x c' k'] by (simp split: if_splits)
  show "elements c' = elements c"
    using assms set_option_view(2) [of c k x c'] by (simp split: if_splits)
  show "opt_prop (options_of c') k'' = (if b \<and> k'' = k then x else opt_prop (options_of c) k'')"
    using assms set_option_view(3) [of c k x c' k''] by (simp split: if_splits)
  show "elements (options_of c') = elements (options_of c)"
    using assms set_option_view(4) [of c k x c'] by (simp split: if_splits)
qed

lemma set_background_view:
  assumes "seq (get_prop c3 (js ''options'')) (\<lambda>opts3.
       seq (set_option c3 (js ''plugins'') (js_or (opt_prop opts3 (js ''plugins'')) (JObj []))) (\<lambda>c4.
       seq (get_prop c4 (js ''options'')) (\<lambda>opts4.
       seq (get_prop opts4 (js ''plugins'')) (\<lambda>plugins.
       seq (set_prop plugins (js ''backgroundColor'') x) (\<lambda>plugins'.
       set_option c4 (js ''plugins'') plugins'))))) = Inr c'"
  shows "k' \<noteq> js ''options'' \<Longrightarrow> opt_prop c' k' = opt_prop c3 k'"
    "elements c' = elements c3"
    "k'' \<noteq> js ''plugins'' \<Longrightarrow> opt_prop (options_of c') k'' = opt_prop (options_of c3) k''"
    "elements (options_of c') = elements (options_of c3)"
    "opt_prop (plugins_of c') k3 = (if k3 = js ''backgroundColor'' then x else opt_prop (plugins_of c3) k3)"
    "elements (plugins_of c') = elements (plugins_of c3)"
proof -
  from assms obtain opts3 c4 opts4 plugins plugins' where
    g3: "get_prop c3 (js ''options'') = Inr opts3" and
    s4: "set_option c3 (js ''plugins'') (js_or (opt_prop opts3 (js ''plugins'')) (JObj [])) = Inr c4" and
    g4: "get_prop c4 (js ''options'') = Inr opts4" and
    gp: "get_prop opts4 (js ''plugins'') = Inr plugins" and
    sp: "set_prop plugins (js ''backgroundColor'') x = Inr plugins'" and
    s5: "set_option c4 (js ''plugins'') plugins' = Inr c'"
    unfolding seq_Inr by blast
  have o3: "opts3 = options_of c3" using g3 by (simp add: options_of_def get_prop_opt)
  have o4: "opts4 = options_of c4" using g4 by (simp add: options_of_def get_prop_opt)
  have p4: "plugins = plugins_of c4" using gp o4 by (simp add: plugins_of_def get_prop_opt)
  have p4': "plugins_of c4 = js_or (plugins_of c3) (JObj [])"
    using set_option_view(3) [OF s4, of "js ''plugins''"] o3 by (simp add: plugins_of_def)
  have p5: "plugins_of c' = plugins'"
    using set_option_view(3) [OF s5, of "js ''plugins''"] by (simp add: plugins_of_def)
  have v: "opt_prop (js_or (plugins_of c3) (JObj [])) k = opt_prop (plugins_of c3) k" for k
    by (simp add: js_or_def falsy_no_props)
  have e: "elements (js_or (plugins_of c3) (JObj [])) = elements (plugins_of c3)"
    by (simp add: js_or_def falsy_no_elements)
  show "k' \<noteq> js ''options'' \<Longrightarrow> opt_prop c' k' = opt_prop c3 k'"
    using set_option_view(1) [OF s5, of k'] set_option_view(1) [OF s4, of k'] by simp
  show "elements c' = elements c3"
    using set_option_view(2) [OF s5] set_option_view(2) [OF s4] by simp
  show "k'' \<noteq> js ''plugins'' \<Longrightarrow> opt_prop (options_of c') k'' = opt_prop (options_of c3) k''"
    using set_option_view(3) [OF s5, of k''] set_option_view(3) [OF s4, of k''] by simp
  show "elements (options_of c') = elements (options_of c3)"
    using set_option_view(4) [OF s5] set_option_view(4) [OF s4] by simp
  show "opt_prop (plugins_of c') k3 = (if k3 = js ''backgroundColor'' then x else opt_prop (plugins_of c3) k3)"
    using set_prop_view(1) [OF sp, of k3] p5 p4 p4' v by simp
  show "elements (plugins_of c') = elements (plugins_of c3)"
    using set_prop_view(2) [OF sp] p5 p4 p4' e by simp
qed

lemma applyChartOptions_stages:
  assumes "applyChartOptions c opts = Inr c'"
  obtains c1 c2 c3 where
    "(if \<not> truthy (options_of c) then set_prop c (js ''options'') (JObj []) else Inr c) = Inr c1"
    "(if truthy (width opts) then set_option c1 (js ''width'') (JNum (parseInt (width opts))) else Inr c1) = Inr c2"
    "(if truthy (height opts) then set_option c2 (js ''height'') (JNum (parseInt (height opts))) else Inr c2) = Inr c3"
    "(if truthy (backgroundColor opts) then
       seq (get_prop c3 (js ''options'')) (\<lambda>opts3.
       seq (set_option c3 (js ''plugins'') (js_or (opt_prop opts3 (js ''plugins'')) (JObj []))) (\<lambda>c4.
       seq (get_prop c4 (js ''options'')) (\<lambda>opts4.
       seq (get_prop opts4 (js ''plugins'')) (\<lambda>plugins.
       seq (set_prop plugins (js ''backgroundColor'') (backgroundColor opts)) (\<lambda>plugins'.
       set_option c4 (js ''plugins'') plugins')))))
     else Inr c3) = Inr c'"
proof -
  from assms obtain o0 c1 c2 c3 where
    g: "get_prop c (js ''options'') = Inr o0" and
    1: "(if \<not> truthy o0 then set_prop c (js ''options'') (JObj []) else Inr c) = Inr c1" and
    2: "(if truthy (width opts) then set_option c1 (js ''width'') (JNum (parseInt (width opts))) else Inr c1) = Inr c2" and
    3: "(if truthy (height opts) then set_option c2 (js ''height'') (JNum (parseInt (height opts))) else Inr c2) = Inr c3" and
    4: "(if truthy (backgroundColor opts) then
       seq (get_prop c3 (js ''options'')) (\<lambda>opts3.
       seq (set_option c3 (js ''plugins'') (js_or (opt_prop opts3 (js ''plugins'')) (JObj []))) (\<lambda>c4.
       seq (get_prop c4 (js ''options'')) (\<lambda>opts4.
       seq (get_prop opts4 (js ''plugins'')) (\<lambda>plugins.
       seq (set_prop plugins (js ''backgroundColor'') (backgroundColor opts)) (\<lambda>plugins'.
       set_option c4 (js ''plugins'') plugins')))))
     else Inr c3) = Inr c'"
    unfolding applyChartOptions_def seq_Inr by blast
  have "o0 = options_of c" using g by (simp add: options_of_def get_prop_opt)
  with 1 2 3 4 that show thesis by blast
qed

lemma applyChartOptions_views:
  assumes "applyChartOptions c opts = Inr c'"
  shows "k \<noteq> js ''options'' \<Longrightarrow> opt_prop c' k = opt_prop c k"
    and "elements c' = elements c"
    and "k \<noteq> js ''plugins'' \<Longrightarrow> opt_prop (options_of c') k =
          (if truthy (height opts) \<and> k = js ''height'' then JNum (parseInt (height opts))
           else if truthy (width opts) \<and> k = js ''width'' then JNum (parseInt (width opts))
           else opt_prop (options_of c) k)"
    and "elements (options_of c') = elements (options_of c)"
    and "opt_prop (plugins_of c') k =
          (if truthy (backgroundColor opts) \<and> k = js ''backgroundColor'' then backgroundColor opts
           else opt_prop (plugins_of c) k)"
    and "elements (plugins_of c') = elements (plugins_of c)"
    and "\<not> truthy (backgroundColor opts) \<Longrightarrow> plugins_of c' = plugins_of c"
proof -
  from assms obtain c1 c2 c3 where
    1: "(if \<not> truthy (options_of c) then set_prop c (js ''options'') (JObj []) else Inr c) = Inr c1" and
    2: "(if truthy (width opts) then set_option c1 (js ''width'') (JNum (parseInt (width opts))) else Inr c1) = Inr c2" and
    3: "(if truthy (height opts) then set_option c2 (js ''height'') (JNum (parseInt (height opts))) else Inr c2) = Inr c3" and
    4: "(if truthy (backgroundColor opts) then
       seq (get_prop c3 (js ''options'')) (\<lambda>opts3.
       seq (set_option c3 (js ''plugins'') (js_or (opt_prop opts3 (js ''plugins'')) (JObj []))) (\<lambda>c4.
       seq (get_prop c4 (js ''options'')) (\<lambda>opts4.
       seq (get_prop opts4 (js ''plugins'')) (\<lambda>plugins.
       seq (set_prop plugins (js ''backgroundColor'') (backgroundColor opts)) (\<lambda>plugins'.
       set_option c4 (js ''plugins'') plugins')))))
     else Inr c3) = Inr c'"
    by (rule applyChartOptions_stages)
  note v1 = ensure_options_view [OF 1]
  note v2 = cond_set_option_view [OF 2]
  note v3 = cond_set_option_view [OF 3]
  have top3: "k \<noteq> js ''options'' \<Longrightarrow> opt_prop c3 k = opt_prop c k" for k
    using v1(1) [of k] v2(1) [of k] v3(1) [of k] by simp
  have el3: "elements c3 = elements c" using v1(2) v2(2) v3(2) by simp
  have w3: "opt_prop (options_of c3) k =
          (if truthy (height opts) \<and> k = js ''height'' then JNum (parseInt (height opts))
           else if truthy (width opts) \<and> k = js ''width'' then JNum (parseInt (width opts))
           else opt_prop (options_of c) k)" for k
    using v1(3) [of k] v2(3) [of k] v3(3) [of k] by auto
  have oe3: "elements (options_of c3) = elements (options_of c)"
    using v1(4) v2(4) v3(4) by simp
  have p3: "plugins_of c3 = plugins_of c"
    using w3 [of "js ''plugins''"] by (simp add: plugins_of_def)
  show "k \<noteq> js ''options'' \<Longrightarrow> opt_prop c' k = opt_prop c k"
  proof (cases "truthy (backgroundColor opts)")
    case True
    assume "k \<noteq> js ''options''"
    then show ?thesis using set_background_view(1) [OF 4 [unfolded if_P [OF True]], of k] top3 [of k] by simp
  next
    case False
    assume "k \<noteq> js ''options''"
    then show ?thesis using 4 False top3 [of k] by simp
  qed
  show "elements c' = elements c"
  proof (cases "truthy (backgroundColor opts)")
    case True
    then show ?thesis using set_background_view(2) [OF 4 [unfolded if_P [OF True]]] el3 by simp
  next
    case False
    then show ?thesis using 4 el3 by simp
  qed
  show "k \<noteq> js ''plugins'' \<Longrightarrow> opt_prop (options_of c') k =
          (if truthy (height opts) \<and> k = js ''height'' then JNum (parseInt (height opts))
           else if truthy (width opts) \<and> k = js ''width'' then JNum (parseInt (width opts))
           else opt_prop (options_of c) k)"
  proof (cases "truthy (backgroundColor opts)")
    case True
    assume "k \<noteq> js ''plugins''"
    then show ?thesis using set_background_view(3) [OF 4 [unfolded if_P [OF True]], of k] w3 [of k] by simp
  next
    case False
    then show ?thesis using 4 w3 [of k] by simp
  qed
  show "elements (options_of c') = elements (options_of c)"
  proof (cases "truthy (backgroundColor opts)")
    case True
    then show ?thesis using set_background_view(4) [OF 4 [unfolded if_P [OF True]]] oe3 by simp
  next
    case False
    then show ?thesis using 4 oe3 by simp
  qed
  show "opt_prop (plugins_of c') k =
          (if truthy (backgroundColor opts) \<and> k = js ''backgroundColor'' then backgroundColor opts
           else opt_prop (plugins_of c) k)"
  proof (cases "truthy (backgroundColor opts)")
    case True
    then show ?thesis using set_background_view(5) [OF 4 [unfolded if_P [OF True]], of k] p3 by simp
  next
    case False
    then show ?thesis using 4 p3 by simp
  qed
  show "elements (plugins_of c') = elements (plugins_of c)"
  proof (cases "truthy (backgroundColor opts)")
    case True
    then show ?thesis using set_background_view(6) [OF 4 [unfolded if_P [OF True]]] p3 by simp
  next
    case False
    then show ?thesis using 4 p3 by simp
  qed
  show "\<not> truthy (backgroundColor opts) \<Longrightarrow> plugins_of c' = plugins_of c"
    using 4 p3 by simp
qed

lemma applyChartOptions_returns:
  assumes c: "is_container c"
      and o: "truthy (options_of c) \<Longrightarrow> is_container (options_of c)"
      and p: "truthy (plugins_of c) \<Longrightarrow> is_container (plugins_of c)"
  shows "\<exists>c'. applyChartOptions c opts = Inr c'"
proof -
  have g: "get_prop c (js ''options'') = Inr (options_of c)"
    using c by (simp add: get_prop_container options_of_def)
  obtain c1 where 1: "(if \<not> truthy (options_of c) then set_prop c (js ''options'') (JObj []) else Inr c) = Inr c1"
    using set_prop_container [OF c, of "js ''options''" "JObj []"] by (cases "truthy (options_of c)") auto
  have c1: "is_container c1"
    using 1 c set_prop_view(3) [of c "js ''options''" "JObj []" c1] by (simp split: if_splits)
  have "options_of c1 = (if truthy (options_of c) then options_of c else JObj [])"
    using 1 set_prop_view(1) [of c "js ''options''" "JObj []" c1 "js ''options''"]
    by (auto simp: options_of_def split: if_splits)
  then have o1: "is_container (options_of c1)"
    using o by (auto simp: is_container_def)
  have step: "\<exists>d'. (if b then set_option d k x else Inr d) = Inr d' \<and> is_container d' \<and> is_container (options_of d')"
    if d: "is_container d" "is_container (options_of d)" for b d k x
  proof (cases b)
    case True
    obtain d' where "set_option d k x = Inr d'" using set_option_container [OF d] by blast
    then show ?thesis using True set_option_view(5,6) [of d k x d'] by auto
  next
    case False
    then show ?thesis using d by simp
  qed
  obtain c2 where 2: "(if truthy (width opts) then set_option c1 (js ''width'') (JNum (parseInt (width opts))) else Inr c1) = Inr c2"
    and c2: "is_container c2" "is_container (options_of c2)"
    using step [OF c1 o1] by blast
  obtain c3 where 3: "(if truthy (height opts) then set_option c2 (js ''height'') (JNum (parseInt (height opts))) else Inr c2) = Inr c3"
    and c3: "is_container c3" "is_container (options_of c3)"
    using step [OF c2] by blast
  have p3: "plugins_of c3 = plugins_of c"
    using ensure_options_view(3) [OF 1, of "js ''plugins''"]
      cond_set_option_view(3) [OF 2, of "js ''plugins''"]
      cond_set_option_view(3) [OF 3, of "js ''plugins''"]
    by (simp add: plugins_of_def)
  have "\<exists>c'. (if truthy (backgroundColor opts) then
       seq (get_prop c3 (js ''options'')) (\<lambda>opts3.
       seq (set_option c3 (js ''plugins'') (js_or (opt_prop opts3 (js ''plugins'')) (JObj []))) (\<lambda>c4.
       seq (get_prop c4 (js ''options'')) (\<lambda>opts4.
       seq (get_prop opts4 (js ''plugins'')) (\<lambda>plugins.
       seq (set_prop plugins (js ''backgroundColor'') (backgroundColor opts)) (\<lambda>plugins'.
       set_option c4 (js ''plugins'') plugins')))))
     else Inr c3) = Inr c'"
  proof (cases "truthy (backgroundColor opts)")
    case False
    then show ?thesis by simp
  next
    case True
    let ?pl = "js_or (plugins_of c3) (JObj [])"
    have g3: "get_prop c3 (js ''options'') = Inr (options_of c3)"
      using c3 by (simp add: get_prop_container options_of_def)
    obtain c4 where s4: "set_option c3 (js ''plugins'') ?pl = Inr c4"
      using set_option_container [OF c3] by blast
    note v4 = set_option_view [OF s4]
    have g4: "get_prop c4 (js ''options'') = Inr (options_of c4)"
      using v4(5) by (simp add: get_prop_container options_of_def)
    have p4: "plugins_of c4 = ?pl" using v4(3) [of "js ''plugins''"] by (simp add: plugins_of_def)
    have gp: "get_prop (options_of c4) (js ''plugins'') = Inr ?pl"
      using v4(6) p4 by (simp add: get_prop_container plugins_of_def)
    have "is_container ?pl" using p p3 by (auto simp: js_or_def is_container_def)
    then obtain pl' where sp: "set_prop ?pl (js ''backgroundColor'') (backgroundColor opts) = Inr pl'"
      using set_prop_container by blast
    obtain c5 where s5: "set_option c4 (js ''plugins'') pl' = Inr c5"
      using set_option_container [OF v4(5) v4(6)] by blast
    show ?thesis using True g3 s4 g4 gp sp s5
      by (simp add: seq_def plugins_of_def options_of_def)
  qed
  then obtain c' where 4: "(if truthy (backgroundColor opts) then
       seq (get_prop c3 (js ''options'')) (\<lambda>opts3.
       seq (set_option c3 (js ''plugins'') (js_or (opt_prop opts3 (js ''plugins'')) (JObj []))) (\<lambda>c4.
       seq (get_prop c4 (js ''options'')) (\<lambda>opts4.
       seq (get_prop opts4 (js ''plugins'')) (\<lambda>plugins.
       seq (set_prop plugins (js ''backgroundColor'') (backgroundColor opts)) (\<lambda>plugins'.
       set_option c4 (js ''plugins'') plugins')))))
     else Inr c3) = Inr c'" by blast
  have "applyChartOptions c opts = Inr c'"
    unfolding applyChartOptions_def using g 1 2 3 4 by (simp add: seq_def)
  then show ?thesis by blast
qed

lemma parseInt_640: "parseInt (JStr (js ''640'')) = Fin 640"
  by (simp add: parseInt_def js_def is_space_def is_digit_def digits_value_def)

text \<open>
  C9.  \<open>applyChartOptions\<close> returns for a configuration that is an object or an array
  whose \<open>options\<close>, and \<open>options.plugins\<close>, are absent (or falsy) or again objects or
  arrays.  What it returns agrees with the configuration it was given on every property
  but \<open>options\<close> (so on \<open>type\<close> and \<open>data\<close>), on every entry of \<open>options\<close> but \<open>width\<close>,
  \<open>height\<close> and \<open>plugins\<close>, on every entry of \<open>options.plugins\<close> but \<open>backgroundColor\<close>,
  and on the elements of the three when they are arrays.  \<open>options.width\<close> is
  \<open>parseInt\<close> of the width supplied, and is left as it was when none is supplied (a falsy
  value); \<open>options.height\<close> likewise; \<open>options.plugins.backgroundColor\<close> is the colour
  supplied, and \<open>options.plugins\<close> is left as it was when none is.
\<close>

theorem applyChartOptions_frame:
  "(is_container c \<and> (truthy (options_of c) \<longrightarrow> is_container (options_of c))
      \<and> (truthy (plugins_of c) \<longrightarrow> is_container (plugins_of c))
      \<longrightarrow> (\<exists>c'. applyChartOptions c opts = Inr c'))
   \<and> (\<forall>c'. applyChartOptions c opts = Inr c' \<longrightarrow>
        (\<forall>k. k \<noteq> js ''options'' \<longrightarrow> opt_prop c' k = opt_prop c k)
      \<and> elements c' = elements c
      \<and> (\<forall>k. k \<noteq> js ''width'' \<and> k \<noteq> js ''height'' \<and> k \<noteq> js ''plugins''
             \<longrightarrow> opt_prop (options_of c') k = opt_prop (options_of c) k)
      \<and> elements (options_of c') = elements (options_of c)
      \<and> (\<forall>k. k \<noteq> js ''backgroundColor''
             \<longrightarrow> opt_prop (plugins_of c') k = opt_prop (plugins_of c) k)
      \<and> elements (plugins_of c') = elements (plugins_of c)
      \<and> opt_prop (options_of c') (js ''width'')
          = (if truthy (width opts) then JNum (parseInt (width opts))
             else opt_prop (options_of c) (js ''width''))
      \<and> opt_prop (options_of c') (js ''height'')
          = (if truthy (height opts) then JNum (parseInt (height opts))
             else opt_prop (options_of c) (js ''height''))
      \<and> (if truthy (backgroundColor opts)
          then opt_prop (plugins_of c') (js ''backgroundColor'') = backgroundColor opts
          else plugins_of c' = plugins_of c))"
proof (intro conjI allI impI)
  assume "is_container c \<and> (truthy (options_of c) \<longrightarrow> is_container (options_of c))
      \<and> (truthy (plugins_of c) \<longrightarrow> is_container (plugins_of c))"
  then show "\<exists>c'. applyChartOptions c opts = Inr c'"
    using applyChartOptions_returns [of c opts] by blast
next
  fix c' k assume a: "applyChartOptions c opts = Inr c'" and "k \<noteq> js ''options''"
  then show "opt_prop c' k = opt_prop c k" using applyChartOptions_views(1) by blast
next
  fix c' assume a: "applyChartOptions c opts = Inr c'"
  show "elements c' = elements c" using applyChartOptions_views(2) [OF a] .
  show "elements (options_of c') = elements (options_of c)" using applyChartOptions_views(4) [OF a] .
  show "elements (plugins_of c') = elements (plugins_of c)" using applyChartOptions_views(6) [OF a] .
  show "opt_prop (options_of c') (js ''width'')
          = (if truthy (width opts) then JNum (parseInt (width opts))
             else opt_prop (options_of c) (js ''width''))"
    using applyChartOptions_views(3) [OF a, of "js ''width''"] by simp
  show "opt_prop (options_of c') (js ''height'')
          = (if truthy (height opts) then JNum (parseInt (height opts))
             else opt_prop (options_of c) (js ''height''))"
    using applyChartOptions_views(3) [OF a, of "js ''height''"] by simp
  show "if truthy (backgroundColor opts)
          then opt_prop (plugins_of c') (js ''backgroundColor'') = backgroundColor opts
          else plugins_of c' = plugins_of c"
    using applyChartOptions_views(5) [OF a, of "js ''backgroundColor''"]
      applyChartOptions_views(7) [OF a] by simp
next
  fix c' k assume a: "applyChartOptions c opts = Inr c'"
    and "k \<noteq> js ''width'' \<and> k \<noteq> js ''height'' \<and> k \<noteq> js ''plugins''"
  then show "opt_prop (options_of c') k = opt_prop (options_of c) k"
    using applyChartOptions_views(3) [OF a, of k] by simp
next
  fix c' k assume a: "applyChartOptions c opts = Inr c'" and "k \<noteq> js ''backgroundColor''"
  then show "opt_prop (plugins_of c') k = opt_prop (plugins_of c) k"
    using applyChartOptions_views(5) [OF a, of k] by simp
qed

theorem applyChartOptions_frame_witness:
  "applyChartOptions titled_chart sized_options =
     Inr (JObj [(js ''type'', JStr (js ''bar'')),
           (js ''data'', JObj [(js ''labels'', JArr [JStr (js ''A'')] [])]),
           (js ''options'', JObj [(js ''title'', JStr (js ''Votes'')),
                                  (js ''plugins'', JObj [(js ''legend'', JBool False),
                                                         (js ''backgroundColor'', JStr (js ''white''))]),
                                  (js ''width'', JNum (Fin 640))])])
   \<and> (\<exists>c'. applyChartOptions titled_chart sized_options = Inr c'
         \<and> opt_prop c' (js ''type'') = JStr (js ''bar'')
         \<and> opt_prop (options_of c') (js ''title'') = JStr (js ''Votes'')
         \<and> opt_prop (options_of c') (js ''width'') = JNum (Fin 640)
         \<and> opt_prop (options_of c') (js ''height'') = JUndefined
         \<and> opt_prop (plugins_of c') (js ''legend'') = JBool False
         \<and> opt_prop (plugins_of c') (js ''backgroundColor'') = JStr (js ''white''))"
proof -
  have e: "applyChartOptions titled_chart sized_options =
     Inr (JObj [(js ''type'', JStr (js ''bar'')),
           (js ''data'', JObj [(js ''labels'', JArr [JStr (js ''A'')] [])]),
           (js ''options'', JObj [(js ''title'', JStr (js ''Votes'')),
                                  (js ''plugins'', JObj [(js ''legend'', JBool False),
                                                         (js ''backgroundColor'', JStr (js ''white''))]),
                                  (js ''width'', JNum (Fin 640))])])"
    by (simp add: applyChartOptions_def set_option_def seq_def upd_def own_def opt_prop_def
        js_or_def titled_chart_def sized_options_def parseInt_640)
  have h: "is_container titled_chart
      \<and> (truthy (options_of titled_chart) \<longrightarrow> is_container (options_of titled_chart))
      \<and> (truthy (plugins_of titled_chart) \<longrightarrow> is_container (plugins_of titled_chart))"
    by (simp add: titled_chart_def is_container_def options_of_def plugins_of_def opt_prop_def own_def)
  have v: "opt_prop titled_chart (js ''type'') = JStr (js ''bar'')"
    "opt_prop (options_of titled_chart) (js ''title'') = JStr (js ''Votes'')"
    "opt_prop (options_of titled_chart) (js ''height'') = JUndefined"
    "opt_prop (plugins_of titled_chart) (js ''legend'') = JBool False"
    by (simp_all add: titled_chart_def options_of_def plugins_of_def opt_prop_def own_def)
  note f = applyChartOptions_frame [of titled_chart sized_options]
  from f [THEN conjunct1] h obtain c' where c': "applyChartOptions titled_chart sized_options = Inr c'"
    by blast
  from f [THEN conjunct2, rule_format, OF c'] v
  have "opt_prop c' (js ''type'') = JStr (js ''bar'')
         \<and> opt_prop (options_of c') (js ''title'') = JStr (js ''Votes'')
         \<and> opt_prop (options_of c') (js ''width'') = JNum (Fin 640)
         \<and> opt_prop (options_of c') (js ''height'') = JUndefined
         \<and> opt_prop (plugins_of c') (js ''legend'') = JBool False
         \<and> opt_prop (plugins_of c') (js ''backgroundColor'') = JStr (js ''white'')"
    by (simp add: sized_options_def parseInt_640)
  with c' e show ?thesis by blast
qed

section \<open>Dimensions that are not positive\<close>





























section \<open>Decoding the chart\<close>

lemma split_div: "q < n \<Longrightarrow> (a * n + q) div n = (a::nat)" by simp
lemma split_mod: "q < n \<Longrightarrow> (a * n + q) mod n = (q::nat)" by simp
lemma hi4: "y \<le> 255 \<Longrightarrow> y div 16 < (16::nat)" by (simp add: div_less_iff_less_mult)
lemma hi2: "z \<le> 255 \<Longrightarrow> z div 64 < (4::nat)" by (simp add: div_less_iff_less_mult)

lemma quad_bounds:
  "x \<le> 255 \<Longrightarrow> x div 4 < (64::nat)"
  "y \<le> 255 \<Longrightarrow> x mod 4 * 16 + y div 16 < (64::nat)"
  "z \<le> 255 \<Longrightarrow> y mod 16 * 4 + z div 64 < (64::nat)"
  "z mod 64 < (64::nat)"
  "y mod 16 * 4 < (64::nat)"
  "x mod 4 * 16 < (64::nat)"
  by arith+

lemma quad_bytes:
  "y \<le> 255 \<Longrightarrow> x div 4 * 4 + (x mod 4 * 16 + y div 16) div 16 = (x::nat)"
  "y \<le> 255 \<Longrightarrow> z \<le> 255 \<Longrightarrow>
     (x mod 4 * 16 + y div 16) mod 16 * 16 + (y mod 16 * 4 + z div 64) div 4 = (y::nat)"
  "z \<le> 255 \<Longrightarrow> (y mod 16 * 4 + z div 64) mod 4 * 64 + z mod 64 = (z::nat)"
  "y \<le> 255 \<Longrightarrow> (x mod 4 * 16 + y div 16) mod 16 * 16 + (y mod 16 * 4) div 4 = (y::nat)"
  "x div 4 * 4 + (x mod 4 * 16) div 16 = (x::nat)"
  by (simp_all add: split_div split_mod hi4 hi2)

lemma b64_index_char: "i < 64 \<Longrightarrow> b64_index (b64_char i) = Some i"
  by (auto simp: b64_index_def b64_char_def)

lemma b64_char_plain: "i < 64 \<Longrightarrow> \<not> is_ascii_space (b64_char i) \<and> b64_char i \<noteq> 61"
  by (auto simp: b64_char_def is_ascii_space_def)

lemma sextets_bound:
  "list_all (\<lambda>c. c \<le> 255) bs \<Longrightarrow> list_all (\<lambda>i. i < 64) (sextets bs)"
  by (induction bs rule: sextets.induct) (simp_all add: quad_bounds)

lemma encode_triples_sextets:
  "encode_triples bs = map b64_char (sextets bs) @ replicate (padding bs) 61"
  by (induction bs rule: sextets.induct) (simp_all add: numeral_2_eq_2)

lemma length_sextets:
  "(length (sextets bs) + padding bs) mod 4 = 0 \<and> padding bs \<le> 2
    \<and> (padding bs > 0 \<longrightarrow> 2 \<le> length (sextets bs)) \<and> length (sextets bs) mod 4 \<noteq> 1"
  by (induction bs rule: sextets.induct) auto

lemma decode_sextets:
  "list_all (\<lambda>c. c \<le> 255) bs \<Longrightarrow> decode_quads (sextets bs) = bs"
proof (induction bs rule: sextets.induct)
  case (1 x y z r)
  then have b: "y \<le> 255" "z \<le> 255" and ih: "decode_quads (sextets r) = r" by simp_all
  show ?case
    by (simp only: sextets.simps decode_quads.simps quad_bytes(1) [OF b(1)]
        quad_bytes(2) [OF b] quad_bytes(3) [OF b(2)] ih)
next
  case (2 x y)
  then have b: "y \<le> 255" by simp
  show ?case
    by (simp only: sextets.simps decode_quads.simps quad_bytes(1) [OF b] quad_bytes(4) [OF b])
next
  case (3 x)
  show ?case by (simp only: sextets.simps decode_quads.simps quad_bytes(5))
next
  case 4
  show ?case by simp
qed

lemma strip_padding_replicate:
  assumes "length (xs @ replicate n 61) mod 4 = 0" "n \<le> 2" "0 < n \<longrightarrow> 2 \<le> length xs"
      and "list_all (\<lambda>c. c \<noteq> 61) xs"
  shows "strip_padding (xs @ replicate n 61) = xs"
proof -
  consider "n = 0" | "n = 1" | "n = 2" using assms(2) by linarith
  then show ?thesis
  proof cases
    case 1
    show ?thesis
    proof (cases "rev xs")
      case Nil
      then show ?thesis using 1 by (simp add: strip_padding_def)
    next
      case (Cons a r)
      then have "a \<in> set xs" by (metis list.set_intros(1) set_rev)
      then have "a \<noteq> 61" using assms(4) by (simp add: list_all_iff)
      then show ?thesis using 1 Cons by (simp add: strip_padding_def split: list.splits)
    qed
  next
    case 2
    then obtain b r where r: "rev xs = b # r" using assms(3) by (cases "rev xs") auto
    then have "b \<in> set xs" by (metis list.set_intros(1) set_rev)
    then have "b \<noteq> 61" using assms(4) by (simp add: list_all_iff)
    moreover have "rev r @ [b] = xs" using r by (metis rev.simps(2) rev_rev_ident)
    ultimately show ?thesis using 2 assms(1) by (simp add: strip_padding_def r)
  next
    case 3
    have "rev (rev xs) = xs" by simp
    then show ?thesis using 3 assms(1) by (simp add: strip_padding_def numeral_2_eq_2)
  qed
qed

lemma atob_encode:
  assumes "list_all (\<lambda>c. c \<le> 255) bs"
  shows "atob (encode_triples bs) = Inr bs"
proof -
  let ?xs = "map b64_char (sextets bs)"
  have sx: "list_all (\<lambda>i. i < 64) (sextets bs)" using assms by (rule sextets_bound)
  have plain: "list_all (\<lambda>c. \<not> is_ascii_space c \<and> c \<noteq> 61) ?xs"
    using sx b64_char_plain by (auto simp: list_all_iff)
  have nospace: "filter (\<lambda>c. \<not> is_ascii_space c) (encode_triples bs) = encode_triples bs"
    using plain by (auto simp: encode_triples_sextets list_all_iff is_ascii_space_def filter_id_conv)
  have strip: "strip_padding (encode_triples bs) = ?xs"
    unfolding encode_triples_sextets
    using length_sextets [of bs] plain
    by (intro strip_padding_replicate) (auto simp: list_all_iff)
  have len: "length ?xs mod 4 \<noteq> 1" using length_sextets [of bs] by simp
  have idx: "list_all (\<lambda>c. b64_index c \<noteq> None) ?xs"
    using sx by (auto simp: list_all_iff b64_index_char)
  have dec: "map (\<lambda>c. the (b64_index c)) ?xs = sextets bs"
    using sx by (auto simp: list_all_iff b64_index_char intro!: map_idI)
  show ?thesis
    unfolding atob_def nospace strip Let_def
    using len idx dec decode_sextets [OF assms] by simp
qed

lemma atob_btoa: "btoa s = Inr b \<Longrightarrow> atob b = Inr s"
  by (auto simp: btoa_def atob_encode split: if_splits)

text \<open>
  C5.  Let \<open>text\<close> be the JSON text of a chart, so that \<open>JSON.parse\<close> gives the chart back.
  Under every encoding but \<open>base64\<close> (so under the default \<open>url\<close>) \<open>decodeChartConfig\<close>
  gives the chart.  When no code unit of \<open>text\<close> exceeds 255, \<open>btoa\<close> encodes it and
  \<open>decodeChartConfig\<close> gives the chart from that encoding under \<open>base64\<close>; otherwise
  \<open>btoa\<close> raises.
\<close>

theorem decode_round_trip:
  assumes "JSON_parse text = Inr spec"
  shows "(\<forall>enc. enc \<noteq> JStr (js ''base64'') \<longrightarrow>
            decodeChartConfig JSON_parse (JStr text) enc = Inr spec)
       \<and> (list_all (\<lambda>c. c \<le> 255) text \<longrightarrow>
            (\<exists>b. btoa text = Inr b
                 \<and> decodeChartConfig JSON_parse (JStr b) (JStr (js ''base64'')) = Inr spec))
       \<and> (\<not> list_all (\<lambda>c. c \<le> 255) text \<longrightarrow> btoa text = Inl InvalidCharacterError)"
proof (intro conjI allI impI)
  fix enc assume "enc \<noteq> JStr (js ''base64'')"
  then show "decodeChartConfig JSON_parse (JStr text) enc = Inr spec"
    using assms by (simp add: decodeChartConfig_def)
next
  assume l: "list_all (\<lambda>c. c \<le> 255) text"
  then have b: "btoa text = Inr (encode_triples text)" by (simp add: btoa_def)
  have "atob (encode_triples text) = Inr text" using l by (rule atob_encode)
  then have "decodeChartConfig JSON_parse (JStr (encode_triples text)) (JStr (js ''base64'')) = Inr spec"
    using assms by (simp add: decodeChartConfig_def)
  with b show "\<exists>b. btoa text = Inr b
                 \<and> decodeChartConfig JSON_parse (JStr b) (JStr (js ''base64'')) = Inr spec"
    by blast
next
  assume "\<not> list_all (\<lambda>c. c \<le> 255) text"
  then show "btoa text = Inl InvalidCharacterError" by (simp add: btoa_def)
qed

lemma btoa_bar: "btoa (js ''{\"type\":\"bar\"}'') = Inr (js ''eyJ0eXBlIjoiYmFyIn0='')"
  by (simp add: btoa_def js_def b64_char_def)

theorem decode_round_trip_witness:
  "decodeChartConfig sample_parse (JStr (js ''{\"type\":\"bar\"}'')) (JStr (js ''url''))
     = Inr (JObj [(js ''type'', JStr (js ''bar''))])
   \<and> btoa (js ''{\"type\":\"bar\"}'') = Inr (js ''eyJ0eXBlIjoiYmFyIn0='')
   \<and> decodeChartConfig sample_parse (JStr (js ''eyJ0eXBlIjoiYmFyIn0='')) (JStr (js ''base64''))
     = Inr (JObj [(js ''type'', JStr (js ''bar''))])"
proof -
  have p: "sample_parse (js ''{\"type\":\"bar\"}'') = Inr (JObj [(js ''type'', JStr (js ''bar''))])"
    by (simp add: sample_parse_def)
  have l: "list_all (\<lambda>c. c \<le> 255) (js ''{\"type\":\"bar\"}'')"
    by (simp add: js_def)
  note t = decode_round_trip [of sample_parse "js ''{\"type\":\"bar\"}''"
      "JObj [(js ''type'', JStr (js ''bar''))]", OF p]
  from t [THEN conjunct1, rule_format, of "JStr (js ''url'')"]
       t [THEN conjunct2, THEN conjunct1, rule_format, OF l] btoa_bar
  show ?thesis by auto
qed

text \<open>
  C5, against every chart: the JSON text of a chart whose type is U+2192 is refused by
  \<open>btoa\<close>, and from the base64 of its UTF-8 bytes \<open>decodeChartConfig\<close> gives another
  chart, whose type is the three code units 226, 134, 146.
\<close>

theorem decode_round_trip_counterexample:
  "arrow_parse arrow_text = Inr arrow_spec
   \<and> btoa arrow_text = Inl InvalidCharacterError
   \<and> encode_triples (utf8_encode arrow_text) = js ''eyJ0eXBlIjoi4oaSIn0=''
   \<and> decodeChartConfig arrow_parse (JStr (js ''eyJ0eXBlIjoi4oaSIn0='')) (JStr (js ''base64''))
        = Inr arrow_bytes_spec
   \<and> arrow_bytes_spec \<noteq> arrow_spec"
proof -
  have 1: "arrow_parse arrow_text = Inr arrow_spec" by (simp add: arrow_parse_def)
  have 2: "btoa arrow_text = Inl InvalidCharacterError"
    by (simp add: btoa_def arrow_text_def js_def)
  have 3: "encode_triples (utf8_encode arrow_text) = js ''eyJ0eXBlIjoi4oaSIn0=''"
    by (simp add: arrow_text_def js_def b64_char_def)
  have 4: "atob (js ''eyJ0eXBlIjoi4oaSIn0='') = Inr (js ''{\"type\":\"'' @ [226, 134, 146] @ js ''\"}'')"
    by (simp add: atob_def strip_padding_def is_ascii_space_def b64_index_def js_def)
  have 5: "decodeChartConfig arrow_parse (JStr (js ''eyJ0eXBlIjoi4oaSIn0='')) (JStr (js ''base64''))
        = Inr arrow_bytes_spec"
    using 4 by (simp add: decodeChartConfig_def arrow_parse_def arrow_text_def js_def)
  have 6: "arrow_bytes_spec \<noteq> arrow_spec" by (simp add: arrow_bytes_spec_def arrow_spec_def)
  from 1 2 3 5 6 show ?thesis by blast
qed

section \<open>Interleaved requests\<close>

lemma resume_all_Done [simp]: "resume_all n (Done r, s) = (Done r, s)"
  by (cases n) simp_all

lemmas machine_defs = settle_def with_page_def issue_def

lemma catch_alone:
  "resume_all (Suc (Suc n)) (enter_catch err c s) = (Done (Inl err), cleanup s)"
  by (simp add: resume_def enter_catch_def after_page_closed_def issue_def cleanup_def Let_def
      split: option.splits)

lemma catching_settle:
  "catching (and_then (\<lambda>s. (r, s)) K) s
     = (case r of Inl err \<Rightarrow> (Done (Inl err), cleanup s) | Inr x \<Rightarrow> catching (K x) s)"
  by (simp add: catching_def and_then_def split: sum.splits)

lemma catching_engine:
  "catching (and_then (engine ec r) K) s = catching (and_then (\<lambda>s. (r, s)) K) (issue ec s)"
  by (simp add: catching_def and_then_def engine_def issue_def)

lemma catching_the_page:
  "catching (and_then the_page K) s
     = (case page s of
          None \<Rightarrow> (Done (Inl (Error (js ''Cannot read properties of null''))), cleanup s)
        | Some p \<Rightarrow> catching (K p) s)"
  by (simp add: catching_def and_then_def the_page_def split: option.splits)

lemma catching_raise: "catching (raise err) s = (Done (Inl err), cleanup s)"
  by (simp add: catching_def raise_def)

lemma finish_at [simp]: "finish (c\<lparr>at := a\<rparr>) = finish c" "finish (c\<lparr>c_page := p\<rparr>) = finish c"
  by (simp_all add: finish_def fun_eq_iff)

lemmas catching_simps = catching_settle catching_engine catching_the_page catching_raise

lemma screenshot_alone:
  assumes "at c = A_screenshot"
  shows "resume_all (Suc (Suc n)) (resume c s)
     = catching (and_then (\<lambda>s. (screenshot (c_engine c), s)) (finish c)) s"
  apply (subst resume_def)
  apply (simp add: assms machine_defs catching_simps catch_alone Let_def split: sum.splits option.splits)
  apply (simp add: catching_def finish_def)
  done


lemma and_then_assoc: "and_then (and_then m f) g = and_then m (\<lambda>x. and_then (f x) g)"
  by (auto simp: and_then_def fun_eq_iff split: sum.splits prod.splits)

lemma and_then_raise: "and_then (raise err) g = raise err"
  by (simp add: and_then_def raise_def fun_eq_iff)

lemma and_then_if: "and_then (if b then m else m') g = (if b then and_then m g else and_then m' g)"
  by simp

lemma query_alone:
  assumes "at c = A_query"
  shows "resume_all (Suc (Suc (Suc n))) (resume c s)
     = catching (and_then (\<lambda>s. (query (c_engine c), s)) (\<lambda>canvas.
                 if \<not> canvas then raise (Error (js ''Cannot read properties of null''))
                 else and_then (engine (Screenshot (c_page c)) (screenshot (c_engine c))) (finish c))) s"
  apply (subst resume_def)
  apply (simp add: assms machine_defs catching_simps catch_alone screenshot_alone Let_def
         split: sum.splits option.splits)
  done

lemma ready_alone:
  assumes "at c = A_waitForReady"
  shows "resume_all (Suc (Suc (Suc (Suc n)))) (resume c s)
     = catching (and_then (\<lambda>s. (waitForReady (c_engine c), s)) (\<lambda>_.
                 and_then (takeScreenshot (c_engine c)) (finish c))) s"
  apply (subst resume_def)
  apply (simp add: assms machine_defs catching_simps catch_alone query_alone Let_def
         takeScreenshot_def and_then_assoc and_then_raise and_then_if
         split: sum.splits option.splits)
  done

lemma evaluate_alone:
  assumes "at c = A_evaluate"
  shows "resume_all (Suc (Suc (Suc (Suc (Suc n))))) (resume c s)
     = catching (and_then (\<lambda>s. (evaluate (c_engine c), s)) (\<lambda>success.
                 if \<not> truthy success then raise (Error (js ''Failed to update chart''))
                 else and_then the_page (\<lambda>p.
                      and_then (engine (WaitForFunction p) (waitForReady (c_engine c))) (\<lambda>_.
                      and_then (takeScreenshot (c_engine c)) (finish c))))) s"
  apply (subst resume_def)
  apply (simp add: assms machine_defs catching_simps catch_alone ready_alone Let_def
         split: sum.splits option.splits)
  done

lemma viewport_alone:
  assumes "at c = A_setViewport"
  shows "resume_all (Suc (Suc (Suc (Suc (Suc (Suc n)))))) (resume c s)
     = catching (and_then (\<lambda>s. (setViewport (c_engine c), s)) (\<lambda>_.
                 and_then the_page (\<lambda>p.
                 and_then (engine (Evaluate p (c_chart c)) (evaluate (c_engine c))) (\<lambda>success.
                 if \<not> truthy success then raise (Error (js ''Failed to update chart''))
                 else and_then the_page (\<lambda>p.
                      and_then (engine (WaitForFunction p) (waitForReady (c_engine c))) (\<lambda>_.
                      and_then (takeScreenshot (c_engine c)) (finish c))))))) s"
  apply (subst resume_def)
  apply (simp add: assms machine_defs catching_simps catch_alone evaluate_alone Let_def
         split: sum.splits option.splits)
  done

lemma finish_init [simp]:
  "c_init c = i \<Longrightarrow> finish (c\<lparr>c_init := i\<rparr>) = finish c"
  by (simp add: finish_def fun_eq_iff)

lemma start_update_alone:
  "resume_all (Suc (Suc (Suc (Suc (Suc (Suc (Suc n))))))) (start_update i c s)
     = catching (rest i c) s"
  apply (simp add: start_update_def rest_def updateChart_def machine_defs catching_simps
         catch_alone viewport_alone Let_def and_then_assoc and_then_raise and_then_if
         split: sum.splits option.splits)
  apply (simp add: catching_def and_then_def raise_def the_page_def engine_def
         split: sum.splits option.splits prod.splits)
  done

lemma rest_at [simp]: "rest i (c\<lparr>at := a\<rparr>) = rest i c"
proof -
  have "finish (c\<lparr>at := a, c_init := i\<rparr>) = finish (c\<lparr>c_init := i\<rparr>)"
    by (simp add: finish_def fun_eq_iff)
  then show ?thesis by (simp add: rest_def)
qed

lemma interception_alone:
  assumes "at c = A_setRequestInterception" "page s = Some p"
  shows "resume_all (Suc (Suc (Suc (Suc (Suc (Suc (Suc n))))))) (resume c s)
     = catching (and_then (\<lambda>s. (setRequestInterception (c_engine c), s)) (\<lambda>_.
                 rest (t_initEnd (c_clock c) - t_initStart (c_clock c)) c)) s"
  apply (subst resume_def)
  apply (simp add: assms machine_defs catching_simps catch_alone start_update_alone Let_def
         split: sum.splits option.splits)
  done

lemma waitForChart_alone:
  assumes "at c = A_waitForChart" "page s = Some p"
  shows "resume_all (Suc (Suc (Suc (Suc (Suc (Suc (Suc (Suc n)))))))) (resume c s)
     = catching (and_then (\<lambda>s. (waitForChart (c_engine c), s)) (\<lambda>_.
                 and_then (engine (SetRequestInterception p) (setRequestInterception (c_engine c))) (\<lambda>_.
                 rest (t_initEnd (c_clock c) - t_initStart (c_clock c)) c))) s"
  apply (subst resume_def)
  apply (simp add: assms machine_defs catching_simps catch_alone Let_def
         interception_alone [where p = p]
         split: sum.splits option.splits)
  done

lemma setContent_alone:
  assumes "at c = A_setContent" "page s = Some p"
  shows "resume_all (Suc (Suc (Suc (Suc (Suc (Suc (Suc (Suc (Suc n))))))))) (resume c s)
     = catching (and_then (\<lambda>s. (setContent (c_engine c), s)) (\<lambda>_.
                 and_then (engine (WaitForFunction p) (waitForChart (c_engine c))) (\<lambda>_.
                 and_then (engine (SetRequestInterception p) (setRequestInterception (c_engine c))) (\<lambda>_.
                 rest (t_initEnd (c_clock c) - t_initStart (c_clock c)) c)))) s"
  apply (subst resume_def)
  apply (simp add: assms machine_defs catching_simps catch_alone Let_def
         waitForChart_alone [where p = p]
         split: sum.splits option.splits)
  done

lemma setViewportInit_alone:
  assumes "at c = A_setViewportInit" "page s = Some p"
  shows "resume_all (Suc (Suc (Suc (Suc (Suc (Suc (Suc (Suc (Suc (Suc n)))))))))) (resume c s)
     = catching (and_then (\<lambda>s. (setViewportInit (c_engine c), s)) (\<lambda>_.
                 and_then (engine (SetContent p) (setContent (c_engine c))) (\<lambda>_.
                 and_then (engine (WaitForFunction p) (waitForChart (c_engine c))) (\<lambda>_.
                 and_then (engine (SetRequestInterception p) (setRequestInterception (c_engine c))) (\<lambda>_.
                 rest (t_initEnd (c_clock c) - t_initStart (c_clock c)) c))))) s"
  apply (subst resume_def)
  apply (simp add: assms machine_defs catching_simps catch_alone Let_def
         setContent_alone [where p = p]
         split: sum.splits option.splits)
  done

lemma catching_assign:
  "catching (and_then (\<lambda>s. (Inr (), f s)) K) s = catching (K ()) (f s)"
  by (simp add: catching_def and_then_def)

lemma newPage_alone:
  assumes "at c = A_newPage"
  shows "resume_all (Suc (Suc (Suc (Suc (Suc (Suc (Suc (Suc (Suc (Suc (Suc n))))))))))) (resume c s)
     = catching (and_then (\<lambda>s. (newPage (c_engine c), s)) (\<lambda>p.
                 and_then (\<lambda>s. (Inr (), s\<lparr>page := Some p\<rparr>)) (\<lambda>_.
                 and_then (engine (SetViewport p (Fin 800) (Fin 600)) (setViewportInit (c_engine c))) (\<lambda>_.
                 and_then (engine (SetContent p) (setContent (c_engine c))) (\<lambda>_.
                 and_then (engine (WaitForFunction p) (waitForChart (c_engine c))) (\<lambda>_.
                 and_then (engine (SetRequestInterception p) (setRequestInterception (c_engine c))) (\<lambda>_.
                 rest (t_initEnd (c_clock c) - t_initStart (c_clock c)) c))))))) s"
  apply (subst resume_def)
  apply (simp add: assms machine_defs catching_simps catching_assign catch_alone Let_def
         setViewportInit_alone
         split: sum.splits option.splits)
  done

lemma launch_alone:
  assumes "at c = A_launch"
  shows "resume_all (Suc (Suc (Suc (Suc (Suc (Suc (Suc (Suc (Suc (Suc (Suc (Suc n)))))))))))) (resume c s)
     = catching (and_then (\<lambda>s. (launch (c_engine c), s)) (\<lambda>b.
                 and_then (\<lambda>s. (Inr (), s\<lparr>browser := Some b\<rparr>)) (\<lambda>_.
                 and_then (engine (NewPage b) (newPage (c_engine c))) (\<lambda>p.
                 and_then (\<lambda>s. (Inr (), s\<lparr>page := Some p\<rparr>)) (\<lambda>_.
                 and_then (engine (SetViewport p (Fin 800) (Fin 600)) (setViewportInit (c_engine c))) (\<lambda>_.
                 and_then (engine (SetContent p) (setContent (c_engine c))) (\<lambda>_.
                 and_then (engine (WaitForFunction p) (waitForChart (c_engine c))) (\<lambda>_.
                 and_then (engine (SetRequestInterception p) (setRequestInterception (c_engine c))) (\<lambda>_.
                 rest (t_initEnd (c_clock c) - t_initStart (c_clock c)) c))))))))) s"
  apply (subst resume_def)
  apply (simp add: assms machine_defs catching_simps catching_assign catch_alone Let_def
         newPage_alone
         split: sum.splits option.splits)
  done

lemma fetch_try_rest:
  assumes "c_engine c = e" "c_clock c = t" "c_chart c = chart"
  shows "fetch_try e t chart =
     (\<lambda>s. if browser s = None \<or> page s = None
          then and_then (initializeBrowser e) (\<lambda>_. rest (t_initEnd t - t_initStart t) c) s
          else rest 0 c s)"
  using assms
  by (auto simp: fetch_try_def rest_def finish_def fun_eq_iff and_then_def ret_def
      split: sum.splits prod.splits)


lemma initializeBrowser_unfold:
  "and_then (initializeBrowser e) K =
     and_then (engine Launch (launch e)) (\<lambda>b.
     and_then (\<lambda>s. (Inr (), s\<lparr>browser := Some b\<rparr>)) (\<lambda>_.
     and_then (engine (NewPage b) (newPage e)) (\<lambda>p.
     and_then (\<lambda>s. (Inr (), s\<lparr>page := Some p\<rparr>)) (\<lambda>_.
     and_then (engine (SetViewport p (Fin 800) (Fin 600)) (setViewportInit e)) (\<lambda>_.
     and_then (engine (SetContent p) (setContent e)) (\<lambda>_.
     and_then (engine (WaitForFunction p) (waitForChart e)) (\<lambda>_.
     and_then (engine (SetRequestInterception p) (setRequestInterception e)) K)))))))"
  by (simp add: initializeBrowser_def and_then_assoc)

lemma new_call_sel [simp]:
  "c_engine (new_call e t rq) = e" "c_clock (new_call e t rq) = t" "c_json (new_call e t rq) = rq"
  "at (new_call e t rq) = A_json"
  by (simp_all add: new_call_def)

lemma alone_is_fetch:
  "resume_all 14 (Waiting (new_call e t rq), s)
     = (Done (fst (fetch e t rq s)), snd (fetch e t rq s))"
proof -
  let ?c = "new_call e t rq"
  have first: "resume_all 14 (Waiting ?c, s) = resume_all 13 (resume ?c s)"
    by (simp add: numeral_eq_Suc)
  show ?thesis
  proof (cases rq)
    case (Inl err)
    then show ?thesis unfolding first by (simp add: resume_def fetch_def)
  next
    case (Inr b)
    show ?thesis
    proof (cases "get_prop b (js ''chart'')")
      case (Inl err)
      then show ?thesis using Inr unfolding first by (simp add: resume_def fetch_def)
    next
      case chart: (Inr chart)
      let ?c1 = "?c\<lparr>c_chart := chart\<rparr>"
      have f: "(Done (fst (fetch e t rq s)), snd (fetch e t rq s)) = catching (fetch_try e t chart) s"
        using Inr chart by (simp add: fetch_def catching_def split: sum.splits prod.splits)
      have t: "fetch_try e t chart =
         (\<lambda>s. if browser s = None \<or> page s = None
              then and_then (initializeBrowser e) (\<lambda>_. rest (t_initEnd t - t_initStart t) ?c1) s
              else rest 0 ?c1 s)"
        by (rule fetch_try_rest) simp_all
      show ?thesis
      proof (cases "browser s = None \<or> page s = None")
        case True
        have r: "resume ?c s = (Waiting (?c\<lparr>c_chart := chart, at := A_launch\<rparr>), issue Launch s)"
          using Inr chart True by (auto simp: resume_def)
        have "resume_all 13 (Waiting (?c\<lparr>c_chart := chart, at := A_launch\<rparr>), issue Launch s)
            = catching (and_then (initializeBrowser e)
                (\<lambda>_. rest (t_initEnd t - t_initStart t) ?c1)) s"
          unfolding initializeBrowser_unfold
          by (simp add: numeral_eq_Suc launch_alone catching_engine)
        then show ?thesis
          unfolding first r f using True by (auto simp: t catching_def)
      next
        case False
        have r: "resume ?c s = start_update 0 ?c1 s"
          using Inr chart False by (auto simp: resume_def)
        have "resume_all 13 (start_update 0 ?c1 s) = catching (rest 0 ?c1) s"
          by (simp add: numeral_eq_Suc start_update_alone)
        then show ?thesis
          unfolding first r f using False by (auto simp: t catching_def)
      qed
    qed
  qed
qed

lemma run_schedule_simps [simp]:
  "run_schedule [] a = a"
  "run_schedule (ev # evs) a = run_schedule evs (step ev a)"
  "run_schedule (evs @ evs') a = run_schedule evs' (run_schedule evs a)"
  by (simp_all add: run_schedule_def)

lemma filter_update_le:
  "i < length xs \<Longrightarrow> P (xs ! i) \<Longrightarrow> length (filter P (xs[i := y])) \<le> length (filter P xs)"
proof (induction xs arbitrary: i)
  case Nil
  then show ?case by simp
next
  case (Cons x xs)
  then show ?case by (cases i) auto
qed

lemma in_flight_count_step:
  "length (filter in_flight (slots (step (Resume i) a))) \<le> length (filter in_flight (slots a))"
proof (cases "i < length (slots a)")
  case False
  then show ?thesis by simp
next
  case True
  show ?thesis
  proof (cases "slots a ! i")
    case (Done r)
    then show ?thesis using True by simp
  next
    case (Waiting c)
    obtain cs s' where r: "resume c (object a) = (cs, s')" by (cases "resume c (object a)")
    have "length (filter in_flight ((slots a)[i := cs])) \<le> length (filter in_flight (slots a))"
      using True Waiting by (intro filter_update_le) simp_all
    then show ?thesis using True Waiting r by simp
  qed
qed

lemma using_engine_in_flight: "using_engine x \<Longrightarrow> in_flight x"
  by (cases x) simp_all

lemma overlap_in_flight:
  "overlap a \<Longrightarrow> 2 \<le> length (filter in_flight (slots a))"
proof -
  have "length (filter using_engine xs) \<le> length (filter in_flight xs)" for xs
    by (induction xs) (auto dest: using_engine_in_flight)
  then show "overlap a \<Longrightarrow> 2 \<le> length (filter in_flight (slots a))"
    unfolding overlap_def using order_trans by blast
qed

lemma serial_in_flight:
  "serial evs a \<Longrightarrow> length (filter in_flight (slots a)) \<le> 1
     \<Longrightarrow> length (filter in_flight (slots (run_schedule evs a))) \<le> 1"
proof (induction evs arbitrary: a)
  case Nil
  then show ?case by simp
next
  case (Cons ev evs)
  show ?case
  proof (cases ev)
    case (Start e t rq)
    then have "length (filter in_flight (slots (step ev a))) \<le> 1" using Cons.prems by simp
    then show ?thesis using Cons Start by simp
  next
    case (Resume i)
    then have "length (filter in_flight (slots (step ev a))) \<le> 1"
      using Cons.prems(2) in_flight_count_step [of i a] by simp
    then show ?thesis using Cons Resume by simp
  qed
qed

lemma serial_take: "serial evs a \<Longrightarrow> serial (take k evs) a"
proof (induction evs arbitrary: a k)
  case Nil
  then show ?case by simp
next
  case (Cons ev evs)
  then show ?case by (cases k; cases ev) simp_all
qed

lemma resume_alone:
  assumes "i < length (slots a)" "slots a ! i = Waiting c"
  shows "run_schedule (replicate n (Resume i)) a
     = a\<lparr>object := snd (resume_all n (Waiting c, object a)),
         slots := (slots a)[i := fst (resume_all n (Waiting c, object a))]\<rparr>"
  using assms
proof (induction n arbitrary: a c)
  case 0
  then have "(slots a)[i := Waiting c] = slots a" by (metis list_update_id)
  then show ?case by simp
next
  case (Suc n)
  obtain cs s' where r: "resume c (object a) = (cs, s')" by (cases "resume c (object a)")
  let ?a' = "a\<lparr>object := s', slots := (slots a)[i := cs]\<rparr>"
  have st: "step (Resume i) a = ?a'" using Suc.prems r by simp
  show ?case
  proof (cases cs)
    case (Waiting c')
    have "run_schedule (replicate n (Resume i)) ?a'
       = ?a'\<lparr>object := snd (resume_all n (Waiting c', object ?a')),
         slots := (slots ?a')[i := fst (resume_all n (Waiting c', object ?a'))]\<rparr>"
      using Suc.prems Waiting by (intro Suc.IH) simp_all
    then show ?thesis using st r Waiting by simp
  next
    case (Done res)
    have idle: "run_schedule (replicate m (Resume i)) ?a' = ?a'" for m
      using Suc.prems(1) Done by (induction m) simp_all
    show ?thesis using st r Done idle [of n] by simp
  qed
qed

lemma started_alone:
  "run_schedule (Start e t rq # replicate 14 (Resume (length (slots a)))) a
     = a\<lparr>object := snd (fetch e t rq (object a)),
         slots := slots a @ [Done (fst (fetch e t rq (object a)))]\<rparr>"
proof -
  let ?a' = "a\<lparr>slots := slots a @ [Waiting (new_call e t rq)]\<rparr>"
  have "run_schedule (replicate 14 (Resume (length (slots a)))) ?a'
     = ?a'\<lparr>object := snd (resume_all 14 (Waiting (new_call e t rq), object ?a')),
         slots := (slots ?a')[length (slots a) := fst (resume_all 14 (Waiting (new_call e t rq), object ?a'))]\<rparr>"
    by (rule resume_alone) simp_all
  then show ?thesis by (simp add: alone_is_fetch)
qed

lemma serial_resumes:
  "serial (replicate n (Resume i) @ evs) a = serial evs (run_schedule (replicate n (Resume i)) a)"
  by (induction n arbitrary: a) simp_all

text \<open>
  C2.  The object holds no queue and no lock, so what keeps two calls apart is the order in
  which they are delivered.  Along a serial schedule, which starts a call only while none
  is in flight, no two calls use the engine at the same time, at any moment of the
  schedule.  A call that is started and resumed to its end with no other call in between
  leaves the object and the result that \<open>fetch\<close> gives.
\<close>

theorem serial_delivery:
  "(serial evs a \<and> length (filter in_flight (slots a)) \<le> 1
      \<longrightarrow> (\<forall>k \<le> length evs. \<not> overlap (run_schedule (take k evs) a)))
   \<and> run_schedule (Start e t rq # replicate 14 (Resume (length (slots a)))) a
       = a\<lparr>object := snd (fetch e t rq (object a)),
           slots := slots a @ [Done (fst (fetch e t rq (object a)))]\<rparr>"
proof (intro conjI impI allI)
  fix k
  assume h: "serial evs a \<and> length (filter in_flight (slots a)) \<le> 1" and "k \<le> length evs"
  have "serial (take k evs) a" using h serial_take by blast
  then have "length (filter in_flight (slots (run_schedule (take k evs) a))) \<le> 1"
    using h serial_in_flight by blast
  then show "\<not> overlap (run_schedule (take k evs) a)"
    using overlap_in_flight [of "run_schedule (take k evs) a"] by auto
next
  show "run_schedule (Start e t rq # replicate 14 (Resume (length (slots a)))) a
       = a\<lparr>object := snd (fetch e t rq (object a)),
           slots := slots a @ [Done (fst (fetch e t rq (object a)))]\<rparr>"
    by (rule started_alone)
qed

theorem serial_delivery_witness:
  "serial one_then_other new_actor
   \<and> \<not> overlap (run_schedule one_then_other new_actor)
   \<and> run_schedule (Start ok_run clock0 (Inr chart_request) # replicate 14 (Resume 0)) new_actor
       = new_actor\<lparr>object := snd (fetch ok_run clock0 (Inr chart_request) (new_session 0)),
           slots := [Done (fst (fetch ok_run clock0 (Inr chart_request) (new_session 0)))]\<rparr>"
proof -
  note sd = serial_delivery [of one_then_other new_actor ok_run clock0 "Inr chart_request"]
  have first: "run_schedule (Start ok_run clock0 (Inr chart_request) # replicate 14 (Resume 0)) new_actor
       = new_actor\<lparr>object := snd (fetch ok_run clock0 (Inr chart_request) (new_session 0)),
           slots := [Done (fst (fetch ok_run clock0 (Inr chart_request) (new_session 0)))]\<rparr>"
    using sd [THEN conjunct2] by (simp add: new_actor_def)
  let ?b = "Start ok_run clock0 (Inr chart_request)"
  have mid: "run_schedule (replicate 14 (Resume 0)) (step ?b new_actor)
       = new_actor\<lparr>object := snd (fetch ok_run clock0 (Inr chart_request) (new_session 0)),
           slots := [Done (fst (fetch ok_run clock0 (Inr chart_request) (new_session 0)))]\<rparr>"
    using first by (simp only: run_schedule_simps(2))
  have "serial one_then_other new_actor
      = serial (replicate 14 (Resume 0) @ [line_call, Resume 1]) (step ?b new_actor)"
    unfolding one_then_other_def bar_call_def
    by (simp only: serial.simps) (simp add: new_actor_def)
  also have "\<dots> = serial [line_call, Resume 1] (run_schedule (replicate 14 (Resume 0)) (step ?b new_actor))"
    by (rule serial_resumes)
  also have "\<dots>"
    unfolding mid by (simp add: line_call_def new_actor_def)
  finally have s: "serial one_then_other new_actor" .
  have n: "length (filter in_flight (slots new_actor)) \<le> 1" by (simp add: new_actor_def)
  have "\<not> overlap (run_schedule (take (length one_then_other) one_then_other) new_actor)"
    using sd [THEN conjunct1] s n by blast
  then show ?thesis using s first by simp
qed

lemmas machine_eval =
  run_schedule_def resume_def settle_def with_page_def start_update_def enter_catch_def
  after_page_closed_def issue_def new_call_def chart_dimension_def opt_prop_def own_def js_or_def
  Math_max_def ok_run_def clock0_def chart_request_def bar_chart_def line_chart_def
  new_session_def new_actor_def bar_call_def line_call_def Let_def

text \<open>
  C2, against exclusion by the object: two calls started together both issue
  \<open>puppeteer.launch\<close>; and a second call started while the first waits for its chart to be
  ready sets the viewport and evaluates its own chart on the same page before the first
  takes its screenshot, and the first then reports the request count 2.
\<close>

theorem render_overlap_counterexample:
  "overlap (run_schedule both_launch new_actor)
   \<and> engine_log (object (run_schedule both_launch new_actor)) = [Launch, Launch]
   \<and> engine_log (object (run_schedule line_overtakes new_actor))
       = [Launch, NewPage 10, SetViewport 11 (Fin 800) (Fin 600), SetContent 11,
          WaitForFunction 11, SetRequestInterception 11, SetViewport 11 (Fin 500) (Fin 300),
          Evaluate 11 bar_chart, WaitForFunction 11, SetViewport 11 (Fin 500) (Fin 300),
          Evaluate 11 line_chart, Query 11, Screenshot 11]
   \<and> slots (run_schedule line_overtakes new_actor) ! 0
       = Done (Inr (render_response clock0 0 [137, 80, 78, 71] 2))"
proof -
  have 1: "run_schedule both_launch new_actor =
     \<lparr> object = (new_session 0)\<lparr>engine_log := [Launch, Launch]\<rparr>,
       slots = [Waiting ((new_call ok_run clock0 (Inr chart_request))\<lparr>c_chart := bar_chart, at := A_launch\<rparr>),
                Waiting ((new_call ok_run clock0 (Inr (JObj [(js ''chart'', line_chart)])))\<lparr>c_chart := line_chart, at := A_launch\<rparr>)] \<rparr>"
    by (simp add: both_launch_def machine_eval)
  have 2: "engine_log (object (run_schedule line_overtakes new_actor))
       = [Launch, NewPage 10, SetViewport 11 (Fin 800) (Fin 600), SetContent 11,
          WaitForFunction 11, SetRequestInterception 11, SetViewport 11 (Fin 500) (Fin 300),
          Evaluate 11 bar_chart, WaitForFunction 11, SetViewport 11 (Fin 500) (Fin 300),
          Evaluate 11 line_chart, Query 11, Screenshot 11]
   \<and> slots (run_schedule line_overtakes new_actor) ! 0
       = Done (Inr (render_response clock0 0 [137, 80, 78, 71] 2))"
    by (simp add: line_overtakes_def machine_eval)
  show ?thesis using 2 unfolding 1 by (simp add: overlap_def)
qed

section \<open>Calls delivered one after another\<close>

lemma one_by_one_run:
  "run_schedule (one_by_one cs (length (slots a))) a
     = a\<lparr>object := snd (run_fetches cs (object a)),
         slots := slots a @ map Done (fst (run_fetches cs (object a)))\<rparr>"
proof (induction cs arbitrary: a)
  case Nil
  then show ?case by simp
next
  case (Cons c cs)
  obtain e t rq where c: "c = (e, t, rq)" by (cases c)
  let ?n = "length (slots a)"
  let ?a' = "a\<lparr>object := snd (fetch e t rq (object a)),
                 slots := slots a @ [Done (fst (fetch e t rq (object a)))]\<rparr>"
  have split: "one_by_one (c # cs) ?n
      = (Start e t rq # replicate 14 (Resume ?n)) @ one_by_one cs (length (slots ?a'))"
    by (simp add: c)
  have "run_schedule (one_by_one (c # cs) ?n) a
      = run_schedule (one_by_one cs (length (slots ?a'))) ?a'"
    unfolding split run_schedule_simps(3) started_alone ..
  also have "\<dots> = ?a'\<lparr>object := snd (run_fetches cs (object ?a')),
         slots := slots ?a' @ map Done (fst (run_fetches cs (object ?a')))\<rparr>"
    by (rule Cons.IH)
  finally show ?case
    by (simp add: c run_fetches_Cons del: run_fetches.simps(2))
qed

lemma run_fetches_length: "length (fst (run_fetches cs s)) = length cs"
proof (induction cs arbitrary: s)
  case Nil
  then show ?case by simp
next
  case (Cons c cs)
  obtain e t rq where c: "c = (e, t, rq)" by (cases c)
  show ?case using Cons.IH unfolding c
    by (simp add: run_fetches_Cons del: run_fetches.simps(2))
qed

lemma resume_success:
  assumes "resume c s = (Done (Inr resp), s')"
  shows "\<exists>shot. resp = render_response (c_clock c) (c_init c) shot (requestCount s')"
  using assms
  by (auto simp: resume_def settle_def with_page_def enter_catch_def after_page_closed_def
      start_update_def Let_def
      split: await_point.splits sum.splits option.splits if_splits)

section \<open>Counting successful renders\<close>

text \<open>
  C3.  When the calls on a new session are delivered one after another and every one of
  them succeeds, they answer as a run of \<open>fetch\<close> calls does: the first response reports
  \<open>X-Browser-Reused: false\<close> and \<open>X-Request-Count: 1\<close>, and the call after \<open>i\<close> others
  reports \<open>true\<close> and the count \<open>i + 1\<close>.  However calls are interleaved, a successful
  response reports the value \<open>requestCount\<close> has when the call ends, with the reuse flag
  equal to \<open>requestCount > 1\<close>; a call that runs uninterrupted adds one to it.
\<close>

theorem successful_renders_count:
  assumes "list_all succeeded
             (slots (run_schedule (one_by_one cs 0) \<lparr>object = new_session now, slots = []\<rparr>))"
  shows "slots (run_schedule (one_by_one cs 0) \<lparr>object = new_session now, slots = []\<rparr>)
           = map Done (fst (run_fetches cs (new_session now)))
       \<and> (\<forall>i < length cs. \<exists>resp.
             slots (run_schedule (one_by_one cs 0) \<lparr>object = new_session now, slots = []\<rparr>) ! i
               = Done (Inr resp)
           \<and> count_header resp = Some (int_toString (int i + 1))
           \<and> reused_header resp = Some (if i = 0 then js ''false'' else js ''true''))
       \<and> (\<forall>c s resp s'. resume c s = (Done (Inr resp), s') \<longrightarrow>
             count_header resp = Some (int_toString (requestCount s'))
           \<and> reused_header resp = Some (if requestCount s' > 1 then js ''true'' else js ''false''))
       \<and> (\<forall>e t rq s resp s'. fetch e t rq s = (Inr resp, s') \<longrightarrow>
             requestCount s' = requestCount s + 1
           \<and> count_header resp = Some (int_toString (requestCount s'))
           \<and> reused_header resp = Some (if requestCount s' > 1 then js ''true'' else js ''false''))"
proof (intro conjI allI impI)
  let ?a = "\<lparr>object = new_session now, slots = []\<rparr>"
  let ?rs = "fst (run_fetches cs (new_session now))"
  have run: "run_schedule (one_by_one cs 0) ?a
      = ?a\<lparr>object := snd (run_fetches cs (new_session now)), slots := map Done ?rs\<rparr>"
    using one_by_one_run [of cs ?a] by simp
  then show sl: "slots (run_schedule (one_by_one cs 0) ?a) = map Done ?rs"
    by simp
  have ok: "\<forall>r \<in> set ?rs. \<not> isl r"
  proof
    fix r assume "r \<in> set ?rs"
    then have "succeeded (Done r)" using assms unfolding sl by (simp add: list_all_iff)
    then show "\<not> isl r" by (cases r) simp_all
  qed
  fix i assume i: "i < length cs"
  have len: "length ?rs = length cs" by (rule run_fetches_length)
  from run_fetches_counts [OF ok i] obtain resp where
    "?rs ! i = Inr resp"
    "count_header resp = Some (int_toString (requestCount (new_session now) + int i + 1))"
    "reused_header resp
       = Some (if requestCount (new_session now) + int i + 1 > 1 then js ''true'' else js ''false'')"
    by blast
  then show "\<exists>resp. slots (run_schedule (one_by_one cs 0) ?a) ! i = Done (Inr resp)
           \<and> count_header resp = Some (int_toString (int i + 1))
           \<and> reused_header resp = Some (if i = 0 then js ''false'' else js ''true'')"
    unfolding sl using i len by (auto simp: new_session_def)
next
  fix c s resp s' assume "resume c s = (Done (Inr resp), s')"
  from resume_success [OF this] obtain shot where
    "resp = render_response (c_clock c) (c_init c) shot (requestCount s')" by blast
  then show "count_header resp = Some (int_toString (requestCount s'))"
    "reused_header resp = Some (if requestCount s' > 1 then js ''true'' else js ''false'')"
    by (simp_all add: render_response_headers)
next
  fix e t rq s resp s' assume "fetch e t rq s = (Inr resp, s')"
  from fetch_success [OF this]
  show "requestCount s' = requestCount s + 1"
    "count_header resp = Some (int_toString (requestCount s'))"
    "reused_header resp = Some (if requestCount s' > 1 then js ''true'' else js ''false'')"
    by simp_all
qed

lemma ok_fetch_second:
  "fetch ok_run clock0 (Inr chart_request) (snd (fetch ok_run clock0 (Inr chart_request) (new_session 0)))
      = (Inr (render_response clock0 0 [137, 80, 78, 71] 2),
         \<lparr> browser = Some 10, page = Some 11, lastUsed = 0, requestCount = 2, storage_alarm = None,
        engine_log = [Launch, NewPage 10, SetViewport 11 (Fin 800) (Fin 600), SetContent 11,
          WaitForFunction 11, SetRequestInterception 11, SetViewport 11 (Fin 500) (Fin 300),
          Evaluate 11 bar_chart, WaitForFunction 11, Query 11, Screenshot 11,
          SetViewport 11 (Fin 500) (Fin 300),
          Evaluate 11 bar_chart, WaitForFunction 11, Query 11, Screenshot 11] \<rparr>)"
  unfolding ok_fetch_new snd_conv
  by (simp add: fetch_def fetch_try_def updateChart_def takeScreenshot_def
      act_defs chart_dimension_def opt_prop_def own_def js_or_def Math_max_def
      ok_run_def clock0_def chart_request_def bar_chart_def)

theorem successful_renders_count_witness:
  "slots (run_schedule
            (one_by_one [(ok_run, clock0, Inr chart_request), (ok_run, clock0, Inr chart_request)] 0)
            \<lparr>object = new_session 0, slots = []\<rparr>)
     = [Done (Inr (render_response clock0 0 [137, 80, 78, 71] 1)),
        Done (Inr (render_response clock0 0 [137, 80, 78, 71] 2))]
   \<and> count_header (render_response clock0 0 [137, 80, 78, 71] 1) = Some (js ''1'')
   \<and> reused_header (render_response clock0 0 [137, 80, 78, 71] 1) = Some (js ''false'')
   \<and> count_header (render_response clock0 0 [137, 80, 78, 71] 2) = Some (js ''2'')
   \<and> reused_header (render_response clock0 0 [137, 80, 78, 71] 2) = Some (js ''true'')"
proof -
  let ?cs = "[(ok_run, clock0, Inr chart_request), (ok_run, clock0, Inr chart_request)]"
  let ?a = "\<lparr>object = new_session 0, slots = []\<rparr>"
  have rs: "fst (run_fetches ?cs (new_session 0))
     = [Inr (render_response clock0 0 [137, 80, 78, 71] 1),
        Inr (render_response clock0 0 [137, 80, 78, 71] 2)]"
    using ok_fetch_second by (simp add: run_fetches_Cons ok_fetch_new del: run_fetches.simps(2))
  have sl: "slots (run_schedule (one_by_one ?cs 0) ?a) = map Done (fst (run_fetches ?cs (new_session 0)))"
    using one_by_one_run [of ?cs ?a] by simp
  have ok: "list_all succeeded (slots (run_schedule (one_by_one ?cs 0) ?a))"
    unfolding sl rs by simp
  note inst = successful_renders_count [OF ok]
  have 1: "slots (run_schedule (one_by_one ?cs 0) ?a)
     = [Done (Inr (render_response clock0 0 [137, 80, 78, 71] 1)),
        Done (Inr (render_response clock0 0 [137, 80, 78, 71] 2))]"
    using inst [THEN conjunct1] rs by simp
  from inst [THEN conjunct2, THEN conjunct1, rule_format, of 0]
       inst [THEN conjunct2, THEN conjunct1, rule_format, of 1]
  show ?thesis unfolding 1 by (simp add: int_toString_def digits.simps js_def)
qed

lemmas overlap_eval =
  run_schedule_def resume_def settle_def with_page_def start_update_def enter_catch_def
  after_page_closed_def issue_def new_call_def chart_dimension_def opt_prop_def own_def js_or_def
  Math_max_def ok_run_def other_run_def timeout_run_def update_fail_run_def clock0_def
  chart_request_def bar_chart_def line_chart_def new_session_def new_actor_def Let_def

text \<open>
  C3, against the count of calls that overlap: of two calls started together on a new
  session and resumed in turn, both succeed and both report \<open>X-Browser-Reused: true\<close> and
  \<open>X-Request-Count: 2\<close>; no call reports \<open>false\<close> and 1.
\<close>

theorem simultaneous_calls_counterexample:
  "slots (run_schedule together new_actor)
     = [Done (Inr (render_response clock0 0 [137, 80, 78, 71] 2)),
        Done (Inr (render_response clock0 0 [137, 80, 78, 71] 2))]
   \<and> reused_header (render_response clock0 0 [137, 80, 78, 71] 2) = Some (js ''true'')
   \<and> count_header (render_response clock0 0 [137, 80, 78, 71] 2) = Some (js ''2'')"
  by (simp add: together_def overlap_eval render_response_headers int_toString_def digits.simps js_def)

section \<open>Failure inside a render\<close>

text \<open>
  C1.  A call that runs from its start to its end with no other call resumed in between,
  and whose \<open>try\<close> block raises \<open>err\<close> at any of its steps, ends raising the same \<open>err\<close>;
  the handles the object held at that moment have been closed, \<open>browser\<close> and \<open>page\<close>
  are \<open>null\<close> and \<open>requestCount\<close> is 0.  The next call, run in the same way, answers
  exactly as it would on a new session, and when it succeeds it reports
  \<open>X-Browser-Reused: false\<close> and \<open>X-Request-Count: 1\<close>.
\<close>

theorem render_failure_resets_session:
  assumes "get_prop b (js ''chart'') = Inr chart"
      and "fetch_try e t chart (object a) = (Inl err, s_mid)"
  shows "\<exists>s'. run_schedule (Start e t (Inr b) # replicate 14 (Resume (length (slots a)))) a
                = a\<lparr>object := s', slots := slots a @ [Done (Inl err)]\<rparr>
      \<and> browser s' = None \<and> page s' = None \<and> requestCount s' = 0
      \<and> (\<forall>p. page s_mid = Some p \<longrightarrow> ClosePage p \<in> set (engine_log s'))
      \<and> (\<forall>h. browser s_mid = Some h \<longrightarrow> CloseBrowser h \<in> set (engine_log s'))
      \<and> (\<forall>e2 t2 rq now.
            slots (run_schedule (Start e2 t2 rq # replicate 14 (Resume (Suc (length (slots a)))))
                     (a\<lparr>object := s', slots := slots a @ [Done (Inl err)]\<rparr>))
              = slots a @ [Done (Inl err), Done (fst (fetch e2 t2 rq (new_session now)))])
      \<and> (\<forall>e2 t2 rq resp s''. fetch e2 t2 rq s' = (Inr resp, s'') \<longrightarrow>
            reused_header resp = Some (js ''false'') \<and> count_header resp = Some (js ''1''))"
proof -
  let ?s' = "cleanup s_mid"
  let ?a' = "a\<lparr>object := ?s', slots := slots a @ [Done (Inl err)]\<rparr>"
  have f: "fetch e t (Inr b) (object a) = (Inl err, ?s')"
    using assms by (simp add: fetch_def)
  have run: "run_schedule (Start e t (Inr b) # replicate 14 (Resume (length (slots a)))) a = ?a'"
    unfolding started_alone f by simp
  have view: "fst (fetch e2 t2 rq ?s') = fst (fetch e2 t2 rq (new_session now))" for e2 t2 rq now
    by (rule fetch_view) (simp add: sim_def cleanup_fields new_session_def)
  have nxt: "slots (run_schedule (Start e2 t2 rq # replicate 14 (Resume (Suc (length (slots a))))) ?a')
      = slots a @ [Done (Inl err), Done (fst (fetch e2 t2 rq (new_session now)))]" for e2 t2 rq now
    using started_alone [of e2 t2 rq ?a'] view [of e2 t2 rq now] by simp
  have hdr: "reused_header resp = Some (js ''false'') \<and> count_header resp = Some (js ''1'')"
    if "fetch e2 t2 rq ?s' = (Inr resp, s'')" for e2 t2 rq resp s''
    using fetch_success [OF that] by (simp add: cleanup_fields int_toString_1)
  show ?thesis
    using run nxt hdr by (intro exI [of _ ?s']) (simp add: cleanup_fields cleanup_closes)
qed

theorem render_failure_resets_session_witness:
  "\<exists>s'. run_schedule (Start timeout_run clock0 (Inr chart_request) # replicate 14 (Resume 0)) new_actor
           = new_actor\<lparr>object := s',
               slots := [Done (Inl (Error (js ''Waiting failed: 5000ms exceeded'')))]\<rparr>
      \<and> browser s' = None \<and> page s' = None \<and> requestCount s' = 0
      \<and> ClosePage 11 \<in> set (engine_log s') \<and> CloseBrowser 10 \<in> set (engine_log s')
      \<and> slots (run_schedule (Start ok_run clock0 (Inr chart_request) # replicate 14 (Resume 1))
                 (new_actor\<lparr>object := s',
                    slots := [Done (Inl (Error (js ''Waiting failed: 5000ms exceeded'')))]\<rparr>))
          = [Done (Inl (Error (js ''Waiting failed: 5000ms exceeded''))),
             Done (Inr (render_response clock0 0 [137, 80, 78, 71] 1))]"
proof -
  have g: "get_prop chart_request (js ''chart'') = Inr bar_chart"
    by (simp add: chart_request_def own_def)
  have t: "fetch_try timeout_run clock0 bar_chart (object new_actor)
     = (Inl (Error (js ''Waiting failed: 5000ms exceeded'')),
      \<lparr> browser = Some 10, page = Some 11, lastUsed = 0, requestCount = 1, storage_alarm = None,
        engine_log = [Launch, NewPage 10, SetViewport 11 (Fin 800) (Fin 600), SetContent 11,
          WaitForFunction 11, SetRequestInterception 11, SetViewport 11 (Fin 500) (Fin 300),
          Evaluate 11 bar_chart, WaitForFunction 11] \<rparr>)"
    using timeout_fetch_try by (simp add: new_actor_def)
  have n: "fst (fetch ok_run clock0 (Inr chart_request) (new_session 0))
      = Inr (render_response clock0 0 [137, 80, 78, 71] 1)"
    by (simp add: ok_fetch_new)
  from render_failure_resets_session [OF g t] obtain s' where
    r: "run_schedule (Start timeout_run clock0 (Inr chart_request) # replicate 14 (Resume (length (slots new_actor)))) new_actor
          = new_actor\<lparr>object := s', slots := slots new_actor @ [Done (Inl (Error (js ''Waiting failed: 5000ms exceeded'')))]\<rparr>"
    and f: "browser s' = None" "page s' = None" "requestCount s' = 0"
    and c: "ClosePage 11 \<in> set (engine_log s')" "CloseBrowser 10 \<in> set (engine_log s')"
    and x: "\<And>e2 t2 rq now.
            slots (run_schedule (Start e2 t2 rq # replicate 14 (Resume (Suc (length (slots new_actor)))))
                     (new_actor\<lparr>object := s', slots := slots new_actor @ [Done (Inl (Error (js ''Waiting failed: 5000ms exceeded'')))]\<rparr>))
              = slots new_actor @ [Done (Inl (Error (js ''Waiting failed: 5000ms exceeded''))),
                                   Done (fst (fetch e2 t2 rq (new_session now)))]"
    by auto
  have sl: "slots new_actor = []" by (simp add: new_actor_def)
  show ?thesis
    using r f c x [of ok_run clock0 "Inr chart_request" 0] unfolding sl n
    by (intro exI [of _ s']) simp
qed

text \<open>
  C1, against the reset when calls overlap.  On \<open>failure_beside\<close> the call that fails has
  launched browser 10 and opened page 11, and its cleanup closes page 21 and browser 20,
  which the other call stored; 10 and 11 are never closed, and the other call then fails
  on the page that is gone.  On \<open>failure_then_next\<close> the failing call has ended its
  cleanup, and the call that follows reports \<open>X-Browser-Reused: true\<close> and
  \<open>X-Request-Count: 2\<close>.
\<close>

theorem failure_overlap_counterexample:
  "engine_log (object (run_schedule failure_beside new_actor))
     = [Launch, Launch, NewPage 10, NewPage 20, SetViewport 11 (Fin 800) (Fin 600),
        SetViewport 21 (Fin 800) (Fin 600), SetContent 21, WaitForFunction 21,
        SetRequestInterception 21, SetViewport 21 (Fin 500) (Fin 300), Evaluate 21 bar_chart,
        WaitForFunction 21, ClosePage 21, CloseBrowser 20]
   \<and> slots (run_schedule (failure_beside @ [Resume 1]) new_actor)
     = [Done (Inl (Error (js ''Waiting failed: 5000ms exceeded''))),
        Done (Inl (Error (js ''Cannot read properties of null'')))]
   \<and> slots (run_schedule (take 10 failure_then_next) new_actor) ! 1
     = Done (Inl (Error (js ''Failed to update chart'')))
   \<and> browser (object (run_schedule (take 10 failure_then_next) new_actor)) = None
   \<and> requestCount (object (run_schedule (take 10 failure_then_next) new_actor)) = 0
   \<and> slots (run_schedule failure_then_next new_actor) ! 2
     = Done (Inr (render_response clock0 0 [137, 80, 78, 71] 2))"
proof -
  have 1: "engine_log (object (run_schedule failure_beside new_actor))
     = [Launch, Launch, NewPage 10, NewPage 20, SetViewport 11 (Fin 800) (Fin 600),
        SetViewport 21 (Fin 800) (Fin 600), SetContent 21, WaitForFunction 21,
        SetRequestInterception 21, SetViewport 21 (Fin 500) (Fin 300), Evaluate 21 bar_chart,
        WaitForFunction 21, ClosePage 21, CloseBrowser 20]"
    by (simp add: failure_beside_def overlap_eval)
  have 2: "slots (run_schedule (failure_beside @ [Resume 1]) new_actor)
     = [Done (Inl (Error (js ''Waiting failed: 5000ms exceeded''))),
        Done (Inl (Error (js ''Cannot read properties of null'')))]"
    by (simp add: failure_beside_def overlap_eval)
  have 3: "slots (run_schedule (take 10 failure_then_next) new_actor) ! 1
     = Done (Inl (Error (js ''Failed to update chart'')))
   \<and> browser (object (run_schedule (take 10 failure_then_next) new_actor)) = None
   \<and> requestCount (object (run_schedule (take 10 failure_then_next) new_actor)) = 0"
    by (simp add: failure_then_next_def overlap_eval)
  have 4: "slots (run_schedule failure_then_next new_actor) ! 2
     = Done (Inr (render_response clock0 0 [137, 80, 78, 71] 2))"
    by (simp add: failure_then_next_def overlap_eval)
  show ?thesis using 1 2 3 4 by simp
qed

end
